theory Spec2Isabelle
  imports Main "HOL-Library.Sublist"
begin

section \<open>The Koyeb account status checker (koyeb-alive/workers.js)\<close>

text \<open>
  The script loads accounts from the environment variable KOYEB_LOGIN, checks every
  account against the Koyeb profile endpoint with a fixed delay before each check,
  builds one report, sends it to Telegram and sets the process exit status.

  Conventions of the embedding.
  \<^item> A JavaScript string is a \<open>string\<close>: a list of code units below 256 (Latin-1).
    \<open>trim\<close> and \<open>toLowerCase\<close> are modelled on that range.
  \<^item> The text literals of the script are Chinese with emoji. Each is written here in
    ASCII, in English, at the place where the script has it; the line of the script is
    given beside the ones that matter.
  \<^item> An \<open>async\<close> function returns \<open>js_error + 'a\<close>: \<open>Inl\<close> is a rejected promise
    (an exception), \<open>Inr\<close> a returned value. Effects (log lines, delays, requests,
    \<open>process.exit\<close>) are appended to the trace of an explicit \<open>world\<close>.
\<close>

subsection \<open>Strings\<close>

definition is_space :: "char \<Rightarrow> bool" where
  \<comment> \<open>White space and line terminators of ECMAScript below 256:
      TAB, LF, VT, FF, CR, SP, NBSP.\<close>
  "is_space c = List.member [9, 10, 11, 12, 13, 32, 160] (of_char c :: nat)"

definition trim :: "string \<Rightarrow> string" where
  \<comment> \<open>\<open>String.prototype.trim\<close>\<close>
  "trim s = rev (dropWhile is_space (rev (dropWhile is_space s)))"

definition lower_char :: "char \<Rightarrow> char" where
  "lower_char c =
     (let n = (of_char c :: nat) in
      if (65 \<le> n \<and> n \<le> 90) \<or> (192 \<le> n \<and> n \<le> 222 \<and> n \<noteq> 215)
      then char_of (n + 32) else c)"

definition toLowerCase :: "string \<Rightarrow> string" where
  "toLowerCase s = map lower_char s"

fun split_nl :: "string \<Rightarrow> string list" where
  \<comment> \<open>\<open>s.split('\n')\<close>: always at least one piece\<close>
  "split_nl [] = [[]]"
| "split_nl (c # cs) =
     (if c = CHR 0x0A then [] # split_nl cs
      else (case split_nl cs of
              [] \<Rightarrow> [[c]]
            | l # ls \<Rightarrow> (c # l) # ls))"

definition includes_char :: "string \<Rightarrow> char \<Rightarrow> bool" where
  \<comment> \<open>\<open>s.includes(c)\<close> for a one-character needle\<close>
  "includes_char s c = List.member s c"

definition indexOf :: "string \<Rightarrow> char \<Rightarrow> nat" where
  \<comment> \<open>\<open>s.indexOf(c)\<close>, used only where \<open>c\<close> occurs in \<open>s\<close>\<close>
  "indexOf s c = length (takeWhile (\<lambda>x. x \<noteq> c) s)"

definition substring :: "string \<Rightarrow> nat \<Rightarrow> nat \<Rightarrow> string" where
  \<comment> \<open>\<open>s.substring(i, j)\<close> for \<open>i \<le> j\<close>\<close>
  "substring s i j = take (j - i) (drop i s)"

definition substring_from :: "string \<Rightarrow> nat \<Rightarrow> string" where
  \<comment> \<open>\<open>s.substring(i)\<close>\<close>
  "substring_from s i = drop i s"

definition digit_char :: "nat \<Rightarrow> char" where
  "digit_char d = char_of (48 + d)"

fun show_nat :: "nat \<Rightarrow> string" where
  "show_nat n = (if n < 10 then [digit_char n] else show_nat (n div 10) @ [digit_char (n mod 10)])"

declare show_nat.simps [simp del]

definition show_int :: "int \<Rightarrow> string" where
  "show_int i = (if i < 0 then CHR ''-'' # show_nat (nat (- i)) else show_nat (nat i))"

subsection \<open>Errors, the trace and the world\<close>

datatype js_error = JsError (err_name: string) (err_message: string)

datatype level = INFO | WARN | ERROR

record request =
  req_url :: string
  req_method :: string
  req_headers :: "(string \<times> string) list"
  req_body :: "string option"

datatype event =
    Log level string
  | Sleep nat
  | Fetch request
  | Exit nat

record world =
  trace :: "event list"
  fetches :: nat

definition emit :: "event \<Rightarrow> world \<Rightarrow> world" where
  "emit e w = w\<lparr>trace := trace w @ [e]\<rparr>"

text \<open>
  The logger (lines 32 to 36) writes one line to the console. The event keeps the level
  and the message; the time stamp the logger puts in front is left out.
\<close>

definition logger_info :: "string \<Rightarrow> world \<Rightarrow> world" where
  "logger_info msg w = emit (Log INFO msg) w"

definition logger_warn :: "string \<Rightarrow> world \<Rightarrow> world" where
  "logger_warn msg w = emit (Log WARN msg) w"

definition logger_error :: "string \<Rightarrow> world \<Rightarrow> world" where
  "logger_error msg w = emit (Log ERROR msg) w"

definition sleep :: "nat \<Rightarrow> world \<Rightarrow> world" where
  \<comment> \<open>lines 41 to 43\<close>
  "sleep ms w = emit (Sleep ms) w"

subsection \<open>Loading the accounts (lines 69 to 104)\<close>

record account =
  acc_email :: string
  acc_pat :: string

record env =
  KOYEB_LOGIN :: "string option"
  TG_BOT_TOKEN :: "string option"
  TG_CHAT_ID :: "string option"

definition env_value :: "string option \<Rightarrow> string" where
  \<comment> \<open>the script only tests a variable for truthiness before it uses it: an unset
      variable and the empty string are both falsy\<close>
  "env_value v = (case v of None \<Rightarrow> [] | Some s \<Rightarrow> s)"

fun load_lines :: "string list \<Rightarrow> account list \<Rightarrow> world \<Rightarrow> account list \<times> world" where
  \<comment> \<open>the loop of lines 80 to 97; \<open>accounts\<close> is the array being filled\<close>
  "load_lines [] accounts w = (accounts, w)"
| "load_lines (rawLine # rest) accounts w =
     (let line = trim rawLine in
      if line = [] \<or> \<not> includes_char line CHR '':'' then
        load_lines rest accounts
          (logger_warn (''[!] skipping invalid or empty line: '' @ line) w)
      else
        let colonIndex = indexOf line CHR '':'';
            email = trim (substring line 0 colonIndex);
            pat = trim (substring_from line (colonIndex + 1))
        in if email \<noteq> [] \<and> pat \<noteq> [] then
             load_lines rest (accounts @ [\<lparr>acc_email = email, acc_pat = pat\<rparr>]) w
           else
             load_lines rest accounts
               (logger_error
                  (''[!] malformed KOYEB_LOGIN line, expected email:PAT -> '' @ line) w))"

definition err_login_unset :: js_error where
  \<comment> \<open>line 74\<close>
  "err_login_unset = JsError ''Error'' ''the KOYEB_LOGIN environment variable must be configured''"

definition err_no_accounts :: js_error where
  \<comment> \<open>line 100\<close>
  "err_no_accounts =
     JsError ''Error'' ''the KOYEB_LOGIN environment variable holds no valid account''"

definition validateAndLoadAccounts :: "env \<Rightarrow> world \<Rightarrow> (js_error + account list) \<times> world" where
  "validateAndLoadAccounts e w =
     (let koyebLoginEnv = env_value (KOYEB_LOGIN e) in
      if koyebLoginEnv = [] then
        (Inl err_login_unset,
         logger_error ''[x] KOYEB_LOGIN is not configured, the script cannot continue'' w)
      else
        (case load_lines (split_nl (trim koyebLoginEnv)) [] w of
           (accounts, w') \<Rightarrow>
             if length accounts = 0 then (Inl err_no_accounts, w')
             else (Inr accounts, w')))"

subsection \<open>JavaScript values\<close>

text \<open>
  What \<open>JSON.parse\<close> returns, with \<open>undefined\<close> for a property that is not there.
  \<open>JNum\<close> stands for the numbers that are integers of magnitude below \<open>2 ^ 53\<close>, which a
  double holds exactly and \<open>String\<close> writes in decimal; other numbers are outside the
  model. An object is the list of its own properties, each key once.
\<close>

datatype jsval =
    JUndefined
  | JNull
  | JBool bool
  | JNum int
  | JStr string
  | JArr "jsval list"
  | JObj "(string \<times> jsval) list"

fun truthy :: "jsval \<Rightarrow> bool" where
  "truthy JUndefined = False"
| "truthy JNull = False"
| "truthy (JBool b) = b"
| "truthy (JNum n) = (n \<noteq> 0)"
| "truthy (JStr s) = (s \<noteq> [])"
| "truthy (JArr xs) = True"
| "truthy (JObj kvs) = True"

definition js_or :: "jsval \<Rightarrow> jsval \<Rightarrow> jsval" where
  \<comment> \<open>\<open>a || b\<close>\<close>
  "js_or a b = (if truthy a then a else b)"

definition type_error :: "string \<Rightarrow> js_error" where
  "type_error m = JsError ''TypeError'' m"

fun get_prop :: "jsval \<Rightarrow> string \<Rightarrow> js_error + jsval" where
  \<comment> \<open>\<open>v.k\<close> for the names the script reads (\<open>user\<close>, \<open>email\<close>, \<open>flags\<close>,
      \<open>email_validated\<close>, \<open>error\<close>): no prototype has them, so only an own property of an
      object gives a value\<close>
  "get_prop JUndefined k =
     Inl (type_error
            (''Cannot read properties of undefined (reading '' @ [CHR 0x27] @ k @ [CHR 0x27]
               @ '')''))"
| "get_prop JNull k =
     Inl (type_error
            (''Cannot read properties of null (reading '' @ [CHR 0x27] @ k @ [CHR 0x27]
               @ '')''))"
| "get_prop (JObj kvs) k = Inr (case map_of kvs k of None \<Rightarrow> JUndefined | Some v \<Rightarrow> v)"
| "get_prop v k = Inr JUndefined"

definition has_own :: "(string \<times> jsval) list \<Rightarrow> string \<Rightarrow> bool" where
  "has_own kvs k = (case map_of kvs k of None \<Rightarrow> False | Some v \<Rightarrow> True)"

fun js_to_string :: "jsval \<Rightarrow> js_error + string"
  and js_join :: "string \<Rightarrow> jsval list \<Rightarrow> js_error + string"
  and js_join_item :: "jsval \<Rightarrow> js_error + string" where
  \<comment> \<open>\<open>String(v)\<close>, as a template literal applies it. An object that has a property
      \<open>toString\<close> of its own (never a function, in parsed JSON) has no primitive value.\<close>
  "js_to_string JUndefined = Inr ''undefined''"
| "js_to_string JNull = Inr ''null''"
| "js_to_string (JBool b) = Inr (if b then ''true'' else ''false'')"
| "js_to_string (JNum n) = Inr (show_int n)"
| "js_to_string (JStr s) = Inr s"
| "js_to_string (JArr xs) = js_join '','' xs"
| "js_to_string (JObj kvs) =
     (if has_own kvs ''toString''
      then Inl (type_error ''Cannot convert object to primitive value'')
      else Inr ''[object Object]'')"
  \<comment> \<open>\<open>xs.join(sep)\<close>\<close>
| "js_join sep [] = Inr []"
| "js_join sep [x] = js_join_item x"
| "js_join sep (x # y # ys) =
     (case js_join_item x of
        Inl e \<Rightarrow> Inl e
      | Inr s \<Rightarrow>
          (case js_join sep (y # ys) of
             Inl e \<Rightarrow> Inl e
           | Inr r \<Rightarrow> Inr (s @ sep @ r)))"
| "js_join_item JUndefined = Inr []"
| "js_join_item JNull = Inr []"
| "js_join_item (JBool b) = js_to_string (JBool b)"
| "js_join_item (JNum n) = js_to_string (JNum n)"
| "js_join_item (JStr s) = js_to_string (JStr s)"
| "js_join_item (JArr xs) = js_to_string (JArr xs)"
| "js_join_item (JObj kvs) = js_to_string (JObj kvs)"

definition hex_digit :: "nat \<Rightarrow> char" where
  "hex_digit d = (if d < 10 then char_of (48 + d) else char_of (87 + d))"

definition json_escape :: "char \<Rightarrow> string" where
  "json_escape c =
     (let n = (of_char c :: nat) in
      if n = 34 then [CHR 0x5C, CHR 0x22]
      else if n = 92 then [CHR 0x5C, CHR 0x5C]
      else if n = 8 then [CHR 0x5C, CHR ''b'']
      else if n = 12 then [CHR 0x5C, CHR ''f'']
      else if n = 10 then [CHR 0x5C, CHR ''n'']
      else if n = 13 then [CHR 0x5C, CHR ''r'']
      else if n = 9 then [CHR 0x5C, CHR ''t'']
      else if n < 32 then [CHR 0x5C, CHR ''u'', CHR ''0'', CHR ''0'', hex_digit (n div 16), hex_digit (n mod 16)]
      else [c])"

definition json_quote :: "string \<Rightarrow> string" where
  "json_quote s = [CHR 0x22] @ concat (map json_escape s) @ [CHR 0x22]"

fun join_strings :: "string \<Rightarrow> string list \<Rightarrow> string" where
  "join_strings sep [] = []"
| "join_strings sep [x] = x"
| "join_strings sep (x # y # ys) = x @ sep @ join_strings sep (y # ys)"

fun JSON_stringify :: "jsval \<Rightarrow> string option"
  and stringify_items :: "jsval list \<Rightarrow> string list"
  and stringify_props :: "(string \<times> jsval) list \<Rightarrow> string list" where
  \<comment> \<open>\<open>JSON.stringify(v)\<close>: \<open>undefined\<close> has no text, is \<open>null\<close> in an array and is
      left out of an object\<close>
  "JSON_stringify JUndefined = None"
| "JSON_stringify JNull = Some ''null''"
| "JSON_stringify (JBool b) = Some (if b then ''true'' else ''false'')"
| "JSON_stringify (JNum n) = Some (show_int n)"
| "JSON_stringify (JStr s) = Some (json_quote s)"
| "JSON_stringify (JArr xs) = Some (''['' @ join_strings '','' (stringify_items xs) @ '']'')"
| "JSON_stringify (JObj kvs) = Some (''{'' @ join_strings '','' (stringify_props kvs) @ ''}'')"
| "stringify_items [] = []"
| "stringify_items (x # xs) =
     (case JSON_stringify x of None \<Rightarrow> ''null'' | Some t \<Rightarrow> t) # stringify_items xs"
| "stringify_props [] = []"
| "stringify_props ((k, v) # kvs) =
     (case JSON_stringify v of
        None \<Rightarrow> stringify_props kvs
      | Some t \<Rightarrow> (json_quote k @ '':'' @ t) # stringify_props kvs)"

definition string_or_undefined :: "string option \<Rightarrow> string" where
  \<comment> \<open>a template literal writes \<open>undefined\<close> for the value \<open>undefined\<close>\<close>
  "string_or_undefined t = (case t of None \<Rightarrow> ''undefined'' | Some x \<Rightarrow> x)"

fun string_includes :: "string \<Rightarrow> string \<Rightarrow> bool" where
  \<comment> \<open>\<open>s.includes(needle)\<close> on a string\<close>
  "string_includes needle [] = (needle = [])"
| "string_includes needle (c # cs) = (prefix needle (c # cs) \<or> string_includes needle cs)"

subsection \<open>Responses and fetch (lines 48 to 61)\<close>

text \<open>
  A response has a status, a status text and a body. The body is absent (\<open>NullBody\<close>) or a
  stream that is read once: \<open>Stream rd parsed\<close>, where \<open>rd\<close> is what reading it to the end
  gives (the text, or a fault) and \<open>parsed\<close> is what \<open>JSON.parse\<close> makes of that text
  (\<open>Inl\<close> the message of its SyntaxError). \<open>text()\<close> and \<open>json()\<close> follow the Fetch
  standard: each reads the body, and a body that has been read is unusable, so a second
  read is rejected with a TypeError. The flag \<open>used\<close> says whether the body has been read.
\<close>

datatype body = NullBody | Stream "js_error + string" "string + jsval"

record response =
  status :: nat
  statusText :: string
  rbody :: body

definition ok :: "response \<Rightarrow> bool" where
  \<comment> \<open>\<open>response.ok\<close>\<close>
  "ok r = (200 \<le> status r \<and> status r \<le> 299)"

definition err_body_used :: js_error where
  "err_body_used = type_error ''Body is unusable: Body has already been read''"

definition response_text :: "response \<Rightarrow> bool \<Rightarrow> (js_error + string) \<times> bool" where
  "response_text r used =
     (case rbody r of
        NullBody \<Rightarrow> (Inr [], used)
      | Stream rd parsed \<Rightarrow> if used then (Inl err_body_used, used) else (rd, True))"

definition response_json :: "response \<Rightarrow> bool \<Rightarrow> (js_error + jsval) \<times> bool" where
  "response_json r used =
     (case rbody r of
        NullBody \<Rightarrow> (Inl (JsError ''SyntaxError'' ''Unexpected end of JSON input''), used)
      | Stream rd parsed \<Rightarrow>
          if used then (Inl err_body_used, used)
          else (case rd of
                  Inl e \<Rightarrow> (Inl e, True)
                | Inr t \<Rightarrow>
                    (case parsed of
                       Inl m \<Rightarrow> (Inl (JsError ''SyntaxError'' m), True)
                     | Inr v \<Rightarrow> (Inr v, True))))"

text \<open>
  The network is an oracle: the answer to the n-th request of the run, a response or a
  rejection. \<open>fetchWithTimeout\<close> aborts the request after the timeout, and then the
  rejection is an \<open>AbortError\<close>; the oracle decides whether that happens.
\<close>

type_synonym network = "nat \<Rightarrow> request \<Rightarrow> js_error + response"

definition abort_error :: js_error where
  "abort_error = JsError ''AbortError'' ''This operation was aborted''"

definition fetchWithTimeout :: "network \<Rightarrow> request \<Rightarrow> world \<Rightarrow> (js_error + response) \<times> world" where
  "fetchWithTimeout net rq w =
     (net (fetches w) rq, (emit (Fetch rq) w)\<lparr>fetches := fetches w + 1\<rparr>)"

subsection \<open>Checking one account (lines 160 to 235)\<close>

text \<open>
  The function returns \<open>{success, message}\<close>. The message is one of ten texts, some with
  a part filled in; \<open>msg\<close> has one constructor for each, and \<open>render_msg\<close> is the text.
\<close>

datatype msg =
    MissingCredential           \<comment> \<open>line 162\<close>
  | InvalidPAT                  \<comment> \<open>line 179\<close>
  | ApiError nat string         \<comment> \<open>line 192: the status and the error message\<close>
  | EmailMismatch string        \<comment> \<open>line 207: the email the API returned\<close>
  | ActiveValidated             \<comment> \<open>line 214\<close>
  | Inactive string             \<comment> \<open>line 218: the flags, joined\<close>
  | EmailNotValidated           \<comment> \<open>line 221\<close>
  | UnknownAccount string       \<comment> \<open>line 225: the user object as JSON\<close>
  | RequestTimeout              \<comment> \<open>line 231\<close>
  | NetworkException string     \<comment> \<open>line 233: the message of the exception\<close>

fun render_msg :: "msg \<Rightarrow> string" where
  "render_msg MissingCredential = ''email or personal access token (PAT) is empty''"
| "render_msg InvalidPAT = ''verification failed: the PAT is invalid or has expired.''"
| "render_msg (ApiError code m) = ''reason: API error (status '' @ show_nat code @ ''): '' @ m"
| "render_msg (EmailMismatch r) =
     ''verification failed: the email the API returned ('' @ r @ '') does not match the given email.''"
| "render_msg ActiveValidated = ''active and email validated''"
| "render_msg (Inactive fl) = ''reason: not active (Flags: '' @ fl @ '')''"
| "render_msg EmailNotValidated = ''reason: email not validated''"
| "render_msg (UnknownAccount u) = ''reason: unknown account: '' @ u"
| "render_msg RequestTimeout = ''reason: request timed out''"
| "render_msg (NetworkException m) = ''reason: network request exception: '' @ m"

record outcome =
  success :: bool
  message :: msg

definition KOYEB_PROFILE_URL :: string where
  "KOYEB_PROFILE_URL = ''https://app.koyeb.com/v1/account/profile''"

definition profile_request :: "string \<Rightarrow> request" where
  \<comment> \<open>lines 165 to 175\<close>
  "profile_request pat =
     \<lparr>req_url = KOYEB_PROFILE_URL,
      req_method = ''GET'',
      req_headers =
        [(''Content-Type'', ''application/json''),
         (''Authorization'', ''Bearer '' @ pat),
         (''User-Agent'', ''KoyebAccountStatusChecker/1.0'')],
      req_body = None\<rparr>"

definition api_error_message :: "response \<Rightarrow> js_error + jsval" where
  \<comment> \<open>lines 183 to 189: the inner \<open>try\<close> covers \<open>response.json()\<close> and the read of
      \<open>errorData.error\<close>; its \<open>catch\<close> reads \<open>response.text()\<close> from the same response\<close>
  "api_error_message response =
     (case response_json response False of
        (tried, used) \<Rightarrow>
          (case (case tried of
                   Inl e \<Rightarrow> Inl e
                 | Inr errorData \<Rightarrow>
                     (case get_prop errorData ''error'' of
                        Inl e \<Rightarrow> Inl e
                      | Inr v \<Rightarrow> Inr (js_or v (JStr (statusText response))))) of
             Inr errorMessage \<Rightarrow> Inr errorMessage
           | Inl caught \<Rightarrow>
               (case fst (response_text response used) of
                  Inl e \<Rightarrow> Inl e
                | Inr t \<Rightarrow> Inr (JStr t))))"

definition api_error_outcome :: "response \<Rightarrow> js_error + outcome" where
  \<comment> \<open>lines 182 to 194\<close>
  "api_error_outcome response =
     (case api_error_message response of
        Inl e \<Rightarrow> Inl e
      | Inr errorMessage \<Rightarrow>
          (case js_to_string errorMessage of
             Inl e \<Rightarrow> Inl e
           | Inr m \<Rightarrow> Inr \<lparr>success = False, message = ApiError (status response) m\<rparr>))"

definition flags_includes :: "jsval \<Rightarrow> string \<Rightarrow> js_error + bool" where
  \<comment> \<open>\<open>flags.includes(x)\<close>: arrays and strings have the method\<close>
  "flags_includes flags x =
     (case flags of
        JArr xs \<Rightarrow> Inr (JStr x \<in> set xs)
      | JStr s \<Rightarrow> Inr (string_includes x s)
      | _ \<Rightarrow> Inl (type_error ''flags.includes is not a function''))"

definition flags_join :: "jsval \<Rightarrow> string \<Rightarrow> js_error + string" where
  \<comment> \<open>\<open>flags.join(sep)\<close>: only arrays have the method\<close>
  "flags_join flags sep =
     (case flags of
        JArr xs \<Rightarrow> js_join sep xs
      | _ \<Rightarrow> Inl (type_error ''flags.join is not a function''))"

definition account_status :: "jsval \<Rightarrow> jsval \<Rightarrow> jsval \<Rightarrow> js_error + outcome" where
  \<comment> \<open>lines 211 to 227\<close>
  "account_status userInfo flags emailValidated =
     (case flags_includes flags ''ACTIVE'' of
        Inl e \<Rightarrow> Inl e
      | Inr isActive \<Rightarrow>
          if isActive \<and> truthy emailValidated then
            Inr \<lparr>success = True, message = ActiveValidated\<rparr>
          else if \<not> isActive then
            (case flags_join flags '', '' of
               Inl e \<Rightarrow> Inl e
             | Inr joined \<Rightarrow> Inr \<lparr>success = False, message = Inactive joined\<rparr>)
          else if \<not> truthy emailValidated then
            Inr \<lparr>success = False, message = EmailNotValidated\<rparr>
          else
            Inr \<lparr>success = False,
                 message = UnknownAccount (string_or_undefined (JSON_stringify userInfo))\<rparr>)"

definition check_profile :: "string \<Rightarrow> response \<Rightarrow> js_error + outcome" where
  \<comment> \<open>lines 196 to 227\<close>
  "check_profile email response =
     (case fst (response_json response False) of
        Inl e \<Rightarrow> Inl e
      | Inr profileData \<Rightarrow>
          (case get_prop profileData ''user'' of
             Inl e \<Rightarrow> Inl e
           | Inr u \<Rightarrow>
               (let userInfo = js_or u (JObj []) in
                case get_prop userInfo ''email'' of
                  Inl e \<Rightarrow> Inl e
                | Inr em \<Rightarrow>
                    (case get_prop userInfo ''flags'' of
                       Inl e \<Rightarrow> Inl e
                     | Inr fl \<Rightarrow>
                         (case get_prop userInfo ''email_validated'' of
                            Inl e \<Rightarrow> Inl e
                          | Inr ev \<Rightarrow>
                              (let returnedEmail = js_or em (JStr []);
                                   flags = js_or fl (JArr []);
                                   emailValidated = js_or ev (JBool False)
                               in case returnedEmail of
                                    JStr r \<Rightarrow>
                                      if toLowerCase r \<noteq> toLowerCase email then
                                        Inr \<lparr>success = False, message = EmailMismatch r\<rparr>
                                      else account_status userInfo flags emailValidated
                                  | _ \<Rightarrow>
                                      Inl (type_error
                                             ''returnedEmail.toLowerCase is not a function'')))))))"

definition verify_request :: "network \<Rightarrow> string \<Rightarrow> string \<Rightarrow> world \<Rightarrow> (js_error + outcome) \<times> world" where
  \<comment> \<open>the \<open>try\<close> block, lines 172 to 227\<close>
  "verify_request net email pat w =
     (case fetchWithTimeout net (profile_request pat) w of
        (Inl e, w1) \<Rightarrow> (Inl e, w1)
      | (Inr response, w1) \<Rightarrow>
          if status response = 401 \<or> status response = 403 then
            (Inr \<lparr>success = False, message = InvalidPAT\<rparr>, w1)
          else if \<not> ok response then (api_error_outcome response, w1)
          else (check_profile email response, w1))"

definition verifyKoyebAccountStatus :: "network \<Rightarrow> string \<Rightarrow> string \<Rightarrow> world \<Rightarrow> (js_error + outcome) \<times> world" where
  "verifyKoyebAccountStatus net email pat w =
     (if email = [] \<or> pat = [] then
        (Inr \<lparr>success = False, message = MissingCredential\<rparr>, w)
      else
        (case verify_request net email pat w of
           (Inr out, w1) \<Rightarrow> (Inr out, w1)
         | (Inl error, w1) \<Rightarrow>
             if err_name error = ''AbortError'' then
               (Inr \<lparr>success = False, message = RequestTimeout\<rparr>, w1)
             else
               (Inr \<lparr>success = False, message = NetworkException (err_message error)\<rparr>, w1)))"

subsection \<open>Sending the Telegram message (lines 111 to 152)\<close>

definition tg_request :: "string \<Rightarrow> string \<Rightarrow> string \<Rightarrow> request" where
  \<comment> \<open>lines 120 to 134\<close>
  "tg_request botToken chatId text =
     \<lparr>req_url = ''https://api.telegram.org/bot'' @ botToken @ ''/sendMessage'',
      req_method = ''POST'',
      req_headers = [(''Content-Type'', ''application/json'')],
      req_body =
        JSON_stringify
          (JObj [(''chat_id'', JStr chatId),
                 (''text'', JStr text),
                 (''parse_mode'', JStr ''Markdown'')])\<rparr>"

definition tg_catch :: "js_error \<Rightarrow> world \<Rightarrow> (js_error + jsval) \<times> world" where
  \<comment> \<open>lines 144 to 151\<close>
  "tg_catch error w =
     (if err_name error = ''AbortError'' then
        (Inr JNull, logger_error ''[x] sending the Telegram message timed out'' w)
      else
        (Inr JNull,
         logger_error (''[x] sending the Telegram message failed: '' @ err_message error) w))"

definition sendTgMessage :: "network \<Rightarrow> env \<Rightarrow> string \<Rightarrow> world \<Rightarrow> (js_error + jsval) \<times> world" where
  "sendTgMessage net e text w =
     (let botToken = env_value (TG_BOT_TOKEN e);
          chatId = env_value (TG_CHAT_ID e)
      in if botToken = [] \<or> chatId = [] then
           (Inr JNull,
            logger_warn
              ''[!] TG_BOT_TOKEN or TG_CHAT_ID is not set, skipping the Telegram message.'' w)
         else
           (case fetchWithTimeout net (tg_request botToken chatId text) w of
              (Inl error, w1) \<Rightarrow> tg_catch error w1
            | (Inr response, w1) \<Rightarrow>
                if \<not> ok response then
                  (case fst (response_text response False) of
                     Inl error \<Rightarrow> tg_catch error w1
                   | Inr errorText \<Rightarrow>
                       (Inr JNull,
                        logger_error (''[x] response body: '' @ errorText)
                          (logger_error
                             (''[x] HTTP error while sending the Telegram message: ''
                                @ show_nat (status response)) w1)))
                else
                  (case fst (response_json response False) of
                     Inl error \<Rightarrow> tg_catch error w1
                   | Inr v \<Rightarrow> (Inr v, w1))))"

subsection \<open>The run (lines 239 to 306)\<close>

record loop_state =
  results :: "string list"
  successCount :: nat
  lworld :: world

type_synonym verifier = "string \<Rightarrow> string \<Rightarrow> world \<Rightarrow> (js_error + outcome) \<times> world"

definition line_incomplete :: string where
  \<comment> \<open>line 255\<close>
  "line_incomplete = ''Account: no email given\<newline>Status: [x] incomplete\<newline>''"

definition line_success :: "string \<Rightarrow> msg \<Rightarrow> string" where
  \<comment> \<open>lines 267 and 273\<close>
  "line_success email m =
     ''Account: `'' @ email @ ''`\<newline>'' @ (''Status: [ok] '' @ render_msg m) @ ''\<newline>''"

definition line_failure :: "string \<Rightarrow> msg \<Rightarrow> string" where
  \<comment> \<open>lines 270 and 273\<close>
  "line_failure email m =
     ''Account: `'' @ email @ ''`\<newline>''
       @ (''Status: [x] verification failed\<newline>  '' @ render_msg m) @ ''\<newline>''"

definition line_exception :: "string \<Rightarrow> js_error \<Rightarrow> string" where
  \<comment> \<open>line 276\<close>
  "line_exception email error =
     ''Account: `'' @ email @ ''`\<newline>Status: [x] verification failed\<newline>''
       @ ''  unknown exception while running - '' @ err_message error @ ''\<newline>''"

definition start_check :: "nat \<Rightarrow> nat \<Rightarrow> string \<Rightarrow> world \<Rightarrow> world" where
  \<comment> \<open>lines 259 and 260: the log line, then the delay of 10 seconds\<close>
  "start_check totalAccounts index email w =
     sleep 10000
       (logger_info
          (''processing account '' @ show_nat (index + 1) @ ''/'' @ show_nat totalAccounts
             @ '': '' @ email)
          w)"

definition process_account :: "verifier \<Rightarrow> nat \<Rightarrow> nat \<Rightarrow> account \<Rightarrow> loop_state \<Rightarrow> loop_state" where
  \<comment> \<open>the body of the loop, lines 249 to 277, for the account at \<open>index\<close>; the check is
      the parameter \<open>verify\<close>, which the run sets to \<open>verifyKoyebAccountStatus\<close>\<close>
  "process_account verify totalAccounts index acc st =
     (let email = trim (acc_email acc);
          pat = acc_pat acc
      in if email = [] \<or> pat = [] then
           st\<lparr>results := results st @ [line_incomplete],
              lworld :=
                logger_warn
                  (''[!] account '' @ show_nat (index + 1) @ ''/'' @ show_nat totalAccounts
                     @ '' is incomplete, skipped'')
                  (lworld st)\<rparr>
         else
           (case verify email pat (start_check totalAccounts index email (lworld st)) of
              (Inr out, w1) \<Rightarrow>
                if success out then
                  st\<lparr>results := results st @ [line_success email (message out)],
                     successCount := successCount st + 1,
                     lworld := w1\<rparr>
                else
                  st\<lparr>results := results st @ [line_failure email (message out)],
                     lworld := w1\<rparr>
            | (Inl error, w1) \<Rightarrow>
                st\<lparr>results := results st @ [line_exception email error],
                   lworld :=
                     logger_error
                       (''[x] unknown exception while processing account '' @ email @ '': ''
                          @ err_message error)
                       w1\<rparr>))"

fun verify_accounts :: "verifier \<Rightarrow> nat \<Rightarrow> nat \<Rightarrow> account list \<Rightarrow> loop_state \<Rightarrow> loop_state" where
  \<comment> \<open>the loop of lines 248 to 278 from \<open>index\<close> on; the list is the rest of the accounts\<close>
  "verify_accounts verify totalAccounts index [] st = st"
| "verify_accounts verify totalAccounts index (acc # rest) st =
     verify_accounts verify totalAccounts (index + 1) rest
       (process_account verify totalAccounts index acc st)"

definition report_header :: "string \<Rightarrow> string" where
  \<comment> \<open>lines 283 to 285\<close>
  "report_header currentTime =
     ''*Koyeb account status report*\<newline>=====================\<newline>Date: ''
       @ currentTime @ ''\<newline>''"

definition report_summary :: "nat \<Rightarrow> nat \<Rightarrow> string" where
  \<comment> \<open>line 281\<close>
  "report_summary totalAccounts successes =
     ''Total: '' @ show_nat totalAccounts @ '' accounts\<newline>Succeeded: '' @ show_nat successes
       @ '' | Failed: '' @ show_int (int totalAccounts - int successes)"

definition report_separator :: string where
  \<comment> \<open>line 287\<close>
  "report_separator = ''\<newline>---------------------------\<newline>''"

definition build_report :: "string \<Rightarrow> nat \<Rightarrow> nat \<Rightarrow> string list \<Rightarrow> string" where
  \<comment> \<open>lines 281 to 288; \<open>results.join('')\<close> is the concatenation\<close>
  "build_report currentTime totalAccounts successes lines =
     report_header currentTime @ report_summary totalAccounts successes
       @ report_separator @ concat lines"

definition main_catch :: "network \<Rightarrow> env \<Rightarrow> js_error \<Rightarrow> world \<Rightarrow> (js_error + nat) \<times> world" where
  \<comment> \<open>lines 300 to 305\<close>
  "main_catch net e error w =
     (let errorMessage = ''[x] initialisation failed: '' @ err_message error in
      case sendTgMessage net e errorMessage (logger_error errorMessage w) of
        (Inl thrown, w1) \<Rightarrow> (Inl thrown, w1)
      | (Inr sent, w1) \<Rightarrow> (Inr 1, emit (Exit 1) w1))"

definition main_with :: "verifier \<Rightarrow> network \<Rightarrow> env \<Rightarrow> string \<Rightarrow> world \<Rightarrow> (js_error + nat) \<times> world" where
  \<comment> \<open>\<open>main\<close> with the check as a parameter. \<open>currentTime\<close> is what \<open>getBeijingTime()\<close>
      returns at line 244. The result is the exit status of the process: 1 where the
      script calls \<open>process.exit(1)\<close>, 0 where \<open>main\<close> runs to its end; \<open>Inl\<close> would be
      an exception that leaves \<open>main\<close>.\<close>
  "main_with verify net e currentTime w =
     (case validateAndLoadAccounts e w of
        (Inl error, w1) \<Rightarrow> main_catch net e error w1
      | (Inr koyebAccounts, w1) \<Rightarrow>
          (let totalAccounts = length koyebAccounts;
               st = verify_accounts verify totalAccounts 0 koyebAccounts
                      \<lparr>results = [], successCount = 0, lworld = w1\<rparr>;
               tgMessage = build_report currentTime totalAccounts (successCount st) (results st)
           in case sendTgMessage net e tgMessage
                     (logger_info (''--- report preview ---\<newline>'' @ tgMessage) (lworld st)) of
                (Inl error, w2) \<Rightarrow> main_catch net e error w2
              | (Inr sent, w2) \<Rightarrow>
                  if successCount st = 0 \<and> totalAccounts > 0 then
                    (Inr 1,
                     emit (Exit 1)
                       (logger_error
                          ''[x] every account failed verification, exiting with a non-zero status''
                          (logger_info ''script finished.'' w2)))
                  else (Inr 0, logger_info ''script finished.'' w2)))"

definition main :: "network \<Rightarrow> env \<Rightarrow> string \<Rightarrow> world \<Rightarrow> (js_error + nat) \<times> world" where
  "main net e currentTime w = main_with (verifyKoyebAccountStatus net) net e currentTime w"

definition world0 :: world where
  \<comment> \<open>the world at the start of a run\<close>
  "world0 = \<lparr>trace = [], fetches = 0\<rparr>"

subsection \<open>The accounts of an input, in the words of the specification\<close>

text \<open>
  The specification splits the input on newlines and keeps, in order, the lines that are
  well formed: not empty, with a colon, and with a non-empty identity before the first
  colon and a non-empty secret after it, both trimmed.
\<close>

definition line_identity :: "string \<Rightarrow> string" where
  "line_identity l = trim (takeWhile (\<lambda>c. c \<noteq> CHR '':'') (trim l))"

definition line_secret :: "string \<Rightarrow> string" where
  "line_secret l = trim (tl (dropWhile (\<lambda>c. c \<noteq> CHR '':'') (trim l)))"

definition well_formed_line :: "string \<Rightarrow> bool" where
  "well_formed_line l =
     (trim l \<noteq> [] \<and> CHR '':'' \<in> set (trim l) \<and> line_identity l \<noteq> [] \<and> line_secret l \<noteq> [])"

definition account_of_line :: "string \<Rightarrow> account" where
  "account_of_line l = \<lparr>acc_email = line_identity l, acc_pat = line_secret l\<rparr>"

definition spec_accounts :: "string \<Rightarrow> account list" where
  "spec_accounts raw = map account_of_line (filter well_formed_line (split_nl raw))"

subsection \<open>Vocabulary of the properties\<close>

definition field :: "jsval \<Rightarrow> string \<Rightarrow> jsval" where
  \<comment> \<open>a property of a value that is neither \<open>null\<close> nor \<open>undefined\<close>\<close>
  "field v k = (case get_prop v k of Inl e \<Rightarrow> JUndefined | Inr x \<Rightarrow> x)"

definition complete :: "account \<Rightarrow> bool" where
  \<comment> \<open>the account passes the test of line 253 and reaches the check\<close>
  "complete a = (trim (acc_email a) \<noteq> [] \<and> acc_pat a \<noteq> [])"

definition is_profile_fetch :: "event \<Rightarrow> bool" where
  \<comment> \<open>a request to the profile endpoint: the call a check makes\<close>
  "is_profile_fetch ev = (case ev of Fetch rq \<Rightarrow> req_url rq = KOYEB_PROFILE_URL | _ \<Rightarrow> False)"

definition is_delay :: "event \<Rightarrow> bool" where
  "is_delay ev = (ev = Sleep 10000)"

fun checks_delayed :: "bool \<Rightarrow> event list \<Rightarrow> bool" where
  \<comment> \<open>every profile request comes right after a delay; \<open>prev\<close> says whether the event
      before the list is one\<close>
  "checks_delayed prev [] = True"
| "checks_delayed prev (ev # evs) =
     ((if is_profile_fetch ev then prev else True) \<and> checks_delayed (is_delay ev) evs)"

definition throttled :: "event list \<Rightarrow> bool" where
  \<comment> \<open>every profile request comes right after a delay of its own\<close>
  "throttled evs =
     (checks_delayed False evs
      \<and> length (filter is_profile_fetch evs) = length (filter is_delay evs))"

definition quiet :: "event list \<Rightarrow> bool" where
  \<comment> \<open>no profile request and no delay\<close>
  "quiet evs = list_all (\<lambda>ev. \<not> is_profile_fetch ev \<and> \<not> is_delay ev) evs"

definition quietly :: "world \<Rightarrow> world \<Rightarrow> bool" where
  "quietly w w' = (\<exists>evs. trace w' = trace w @ evs \<and> quiet evs)"

definition grows :: "world \<Rightarrow> world \<Rightarrow> bool" where
  "grows w w' = (\<exists>evs. trace w' = trace w @ evs \<and> throttled evs)"

definition account_head :: "account \<Rightarrow> string" where
  \<comment> \<open>how the report line of an account starts (lines 273 and 276)\<close>
  "account_head a = ''Account: `'' @ acc_email a @ ''`\<newline>''"

definition nonblank :: "string list \<Rightarrow> string list" where
  "nonblank ls = filter (\<lambda>t. t \<noteq> []) (map trim ls)"

definition is_error_log :: "event \<Rightarrow> bool" where
  "is_error_log ev = (case ev of Log l m \<Rightarrow> l = ERROR | _ \<Rightarrow> False)"

subsection \<open>Examples\<close>

definition profile_json :: "string \<Rightarrow> string list \<Rightarrow> bool \<Rightarrow> jsval" where
  \<comment> \<open>the body of a profile answer\<close>
  "profile_json em fl ev =
     JObj [(''user'',
            JObj [(''email'', JStr em),
                  (''flags'', JArr (map JStr fl)),
                  (''email_validated'', JBool ev)])]"

definition json_response :: "nat \<Rightarrow> string \<Rightarrow> jsval \<Rightarrow> response" where
  \<comment> \<open>a response whose body is the JSON text of a value\<close>
  "json_response code st v =
     \<lparr>status = code, statusText = st,
      rbody = Stream (Inr (string_or_undefined (JSON_stringify v))) (Inr v)\<rparr>"

definition text_response :: "nat \<Rightarrow> string \<Rightarrow> string \<Rightarrow> string \<Rightarrow> response" where
  \<comment> \<open>a response whose body is a text that is not JSON; \<open>m\<close> is the parser's message\<close>
  "text_response code st t m = \<lparr>status = code, statusText = st, rbody = Stream (Inr t) (Inl m)\<rparr>"

definition answers :: "(js_error + response) list \<Rightarrow> network" where
  \<comment> \<open>a network that gives the listed answers in turn, and fails after the last\<close>
  "answers rs n rq =
     (if n < length rs then rs ! n else Inl (JsError ''TypeError'' ''fetch failed''))"

definition two_accounts :: env where
  "two_accounts =
     \<lparr>KOYEB_LOGIN = Some ''a@x.com:tok1\<newline>b@x.com:tok2'',
      TG_BOT_TOKEN = None, TG_CHAT_ID = None\<rparr>"

definition one_good_one_denied :: network where
  "one_good_one_denied =
     answers [Inr (json_response 200 ''OK'' (profile_json ''A@x.com'' [''ACTIVE''] True)),
              Inr \<lparr>status = 403, statusText = ''Forbidden'', rbody = NullBody\<rparr>]"

definition always_throws :: verifier where
  \<comment> \<open>a check that throws for every account, with a message that names the token\<close>
  "always_throws em p w = (Inl (JsError ''Error'' (''no route for '' @ p)), w)"

definition messy_input :: string where
  "messy_input =
     '' a@x.com : tok:1 \<newline>\<newline>no colon here\<newline>:only-secret\<newline>b@y.org:t2''"


definition with_telegram :: env where
  "with_telegram = two_accounts\<lparr>TG_BOT_TOKEN := Some ''123:abc'', TG_CHAT_ID := Some ''42''\<rparr>"

definition all_denied :: network where
  "all_denied n rq = Inr \<lparr>status = 403, statusText = ''Forbidden'', rbody = NullBody\<rparr>"

definition all_aborted :: network where
  "all_aborted n rq = Inl abort_error"

definition bad_gateway :: network where
  "bad_gateway =
     answers [Inr (text_response 502 ''Bad Gateway'' ''<html>502 Bad Gateway</html>''
                     ''Unexpected token < in JSON at position 0'')]"

definition not_json :: network where
  "not_json =
     answers [Inr (text_response 200 ''OK'' ''<html>maintenance</html>''
                     ''Unexpected token < in JSON at position 0'')]"

definition not_validated :: network where
  "not_validated =
     answers [Inr (json_response 200 ''OK'' (profile_json ''a@x.com'' [''ACTIVE''] False))]"

definition account_a :: account where
  "account_a = \<lparr>acc_email = ''a@x.com'', acc_pat = ''tok1''\<rparr>"

definition account_b :: account where
  "account_b = \<lparr>acc_email = ''b@x.com'', acc_pat = ''tok2''\<rparr>"

definition state0 :: loop_state where
  "state0 = \<lparr>results = [], successCount = 0, lworld = world0\<rparr>"

section \<open>Properties\<close>

subsection \<open>Trimming and splitting\<close>

lemma trim_space_Cons: "is_space c \<Longrightarrow> trim (c # s) = trim s"
  by (simp add: trim_def)

lemma trim_space_snoc: "is_space c \<Longrightarrow> trim (s @ [c]) = trim s"
proof (cases "\<forall>x\<in>set s. is_space x")
  case True
  assume c: "is_space c"
  from True c have a: "dropWhile is_space (s @ [c]) = []" by simp
  from True have b: "dropWhile is_space s = []" by simp
  show ?thesis unfolding trim_def a b by simp
next
  case False
  assume c: "is_space c"
  from False have "dropWhile is_space (s @ [c]) = dropWhile is_space s @ [c]"
    by (auto simp: dropWhile_append)
  with c show ?thesis by (simp add: trim_def)
qed

lemma dropWhile_rev_dropWhile:
  "dropWhile P (rev (dropWhile P (rev (dropWhile P s)))) = rev (dropWhile P (rev (dropWhile P s)))"
  by (metis (no_types, lifting) Nil_is_rev_conv dropWhile_eq_Nil_conv
      dropWhile_eq_self_iff dropWhile_last hd_dropWhile hd_rev last_rev)

lemma trim_trim: "trim (trim s) = trim s"
  by (simp add: trim_def dropWhile_rev_dropWhile)

lemma trim_Nil: "trim [] = []"
  by (simp add: trim_def)

lemma split_nl_not_Nil: "split_nl s \<noteq> []"
  by (induction s) (auto split: list.splits)

lemma split_nl_snoc:
  "split_nl (s @ [c]) =
     (if c = CHR 0x0A then split_nl s @ [[]]
      else butlast (split_nl s) @ [last (split_nl s) @ [c]])"
proof (induction s)
  case Nil
  then show ?case by simp
next
  case (Cons a s)
  then show ?case
    using split_nl_not_Nil [of s]
    by (auto split: list.splits simp: butlast_append)
qed

lemma nonblank_trimStart: "nonblank (split_nl (dropWhile is_space s)) = nonblank (split_nl s)"
proof (induction s)
  case Nil
  then show ?case by simp
next
  case (Cons c s)
  show ?case
  proof (cases "is_space c")
    case True
    then show ?thesis using Cons split_nl_not_Nil [of s]
      by (auto simp: nonblank_def trim_Nil trim_space_Cons split: list.splits)
  next
    case False
    then show ?thesis by simp
  qed
qed

lemma nonblank_snoc_space:
  assumes "is_space c"
  shows "nonblank (split_nl (s @ [c])) = nonblank (split_nl s)"
proof -
  have ne: "split_nl s \<noteq> []" by (rule split_nl_not_Nil)
  then have dec: "split_nl s = butlast (split_nl s) @ [last (split_nl s)]" by simp
  show ?thesis
  proof (cases "c = CHR 0x0A")
    case True
    then show ?thesis by (simp add: split_nl_snoc nonblank_def trim_Nil)
  next
    case False
    have "nonblank (split_nl (s @ [c])) = nonblank (butlast (split_nl s) @ [last (split_nl s) @ [c]])"
      using False by (simp add: split_nl_snoc)
    also have "\<dots> = nonblank (butlast (split_nl s) @ [last (split_nl s)])"
      using assms by (simp add: nonblank_def trim_space_snoc)
    also have "\<dots> = nonblank (split_nl s)" using dec by simp
    finally show ?thesis .
  qed
qed

lemma nonblank_trimEnd:
  "nonblank (split_nl (rev (dropWhile is_space (rev s)))) = nonblank (split_nl s)"
proof (induction s rule: rev_induct)
  case Nil
  then show ?case by simp
next
  case (snoc c s)
  then show ?case by (simp add: nonblank_snoc_space)
qed

lemma nonblank_trim: "nonblank (split_nl (trim s)) = nonblank (split_nl s)"
  by (simp add: trim_def nonblank_trimEnd nonblank_trimStart)

subsection \<open>The loader\<close>

lemma first_colon_take:
  "substring line 0 (indexOf line c) = takeWhile (\<lambda>x. x \<noteq> c) line"
  by (simp add: substring_def indexOf_def takeWhile_eq_take [symmetric])

lemma first_colon_drop:
  "substring_from line (Suc (indexOf line c)) = tl (dropWhile (\<lambda>x. x \<noteq> c) line)"
proof -
  have "tl (dropWhile (\<lambda>x. x \<noteq> c) line) = tl (drop (indexOf line c) line)"
    unfolding indexOf_def by (simp only: dropWhile_eq_drop [symmetric])
  also have "\<dots> = drop (Suc (indexOf line c)) line"
    by (simp add: drop_Suc tl_drop)
  finally show ?thesis by (simp add: substring_from_def)
qed

lemma load_lines_accounts:
  "fst (load_lines ls accounts w) = accounts @ map account_of_line (filter well_formed_line ls)"
proof (induction ls arbitrary: accounts w)
  case Nil
  then show ?case by simp
next
  case (Cons l ls)
  then show ?case
    by (simp add: Let_def first_colon_take first_colon_drop includes_char_def
        well_formed_line_def account_of_line_def line_identity_def line_secret_def)
qed

lemma well_formed_trim: "well_formed_line (trim l) = well_formed_line l"
  by (simp add: well_formed_line_def line_identity_def line_secret_def trim_trim)

lemma account_of_trim: "account_of_line (trim l) = account_of_line l"
  by (simp add: account_of_line_def line_identity_def line_secret_def trim_trim)

lemma not_well_formed_blank: "trim l = [] \<Longrightarrow> \<not> well_formed_line l"
  by (simp add: well_formed_line_def)

lemma accounts_via_nonblank:
  "map account_of_line (filter well_formed_line ls) =
   map account_of_line (filter well_formed_line (nonblank ls))"
  by (induction ls) (auto simp: nonblank_def well_formed_trim account_of_trim not_well_formed_blank)

lemma accounts_trim_input:
  "map account_of_line (filter well_formed_line (split_nl (trim raw))) = spec_accounts raw"
  unfolding spec_accounts_def
  by (metis accounts_via_nonblank nonblank_trim)

lemma loaded_accounts: "fst (load_lines (split_nl (trim raw)) [] w) = spec_accounts raw"
  by (simp add: load_lines_accounts accounts_trim_input)

lemma spec_accounts_Nil: "spec_accounts [] = []"
  by (simp add: spec_accounts_def well_formed_line_def trim_Nil)

lemma load_cases:
  "validateAndLoadAccounts e w =
     (let raw = env_value (KOYEB_LOGIN e) in
      if raw = [] then
        (Inl err_login_unset,
         logger_error ''[x] KOYEB_LOGIN is not configured, the script cannot continue'' w)
      else if spec_accounts raw = [] then
        (Inl err_no_accounts, snd (load_lines (split_nl (trim raw)) [] w))
      else (Inr (spec_accounts raw), snd (load_lines (split_nl (trim raw)) [] w)))"
  using loaded_accounts [of "env_value (KOYEB_LOGIN e)" w]
  by (auto simp: validateAndLoadAccounts_def Let_def split: prod.splits)

lemma load_result:
  "fst (validateAndLoadAccounts e w) =
     (if env_value (KOYEB_LOGIN e) = [] then Inl err_login_unset
      else if spec_accounts (env_value (KOYEB_LOGIN e)) = [] then Inl err_no_accounts
      else Inr (spec_accounts (env_value (KOYEB_LOGIN e))))"
  by (simp add: load_cases Let_def)

lemma spec_accounts_complete: "a \<in> set (spec_accounts raw) \<Longrightarrow> complete a \<and> trim (acc_email a) = acc_email a"
  by (auto simp: spec_accounts_def account_of_line_def well_formed_line_def complete_def
      line_identity_def trim_trim)

subsection \<open>The check of one account\<close>

lemma get_prop_truthy: "truthy v \<Longrightarrow> get_prop v k = Inr (field v k)"
  by (cases v) (simp_all add: field_def)

lemma truthy_js_or_obj: "truthy (js_or u (JObj []))"
  by (simp add: js_or_def)

lemma js_join_strings: "js_join sep (map JStr names) = Inr (join_strings sep names)"
  by (induction sep names rule: join_strings.induct) simp_all

lemma verify_total: "\<exists>out. fst (verifyKoyebAccountStatus net email pat w) = Inr out"
  by (simp add: verifyKoyebAccountStatus_def split: prod.splits sum.splits)

lemma account_status_three_branches:
  "account_status userInfo flags emailValidated =
     (case flags_includes flags ''ACTIVE'' of
        Inl e \<Rightarrow> Inl e
      | Inr isActive \<Rightarrow>
          if isActive \<and> truthy emailValidated then
            Inr \<lparr>success = True, message = ActiveValidated\<rparr>
          else if \<not> isActive then
            (case flags_join flags '', '' of
               Inl e \<Rightarrow> Inl e
             | Inr joined \<Rightarrow> Inr \<lparr>success = False, message = Inactive joined\<rparr>)
          else Inr \<lparr>success = False, message = EmailNotValidated\<rparr>)"
  by (simp add: account_status_def split: sum.splits)

lemma account_status_known:
  "account_status userInfo flags emailValidated = Inr out \<Longrightarrow> message out \<noteq> UnknownAccount u"
  by (auto simp: account_status_three_branches split: sum.splits if_splits)

lemma check_profile_known:
  "check_profile email response = Inr out \<Longrightarrow> message out \<noteq> UnknownAccount u"
  by (auto simp: check_profile_def Let_def split: sum.splits if_splits jsval.splits
      dest: account_status_known)

lemma api_error_known:
  "api_error_outcome response = Inr out \<Longrightarrow> message out \<noteq> UnknownAccount u"
  by (auto simp: api_error_outcome_def split: sum.splits)

lemma verify_request_known:
  "verify_request net email pat w = (Inr out, w1) \<Longrightarrow> message out \<noteq> UnknownAccount u"
  by (auto simp: verify_request_def split: sum.splits if_splits prod.splits
      dest: check_profile_known api_error_known)

lemma verify_known:
  "fst (verifyKoyebAccountStatus net email pat w) = Inr out \<Longrightarrow> message out \<noteq> UnknownAccount u"
  by (auto simp: verifyKoyebAccountStatus_def split: sum.splits if_splits prod.splits
      dest: verify_request_known)

lemma verify_on_response:
  assumes "email \<noteq> []" and "pat \<noteq> []"
    and "net (fetches w) (profile_request pat) = Inr r"
  shows "fst (verifyKoyebAccountStatus net email pat w) =
     Inr (case (if status r = 401 \<or> status r = 403
                then Inr \<lparr>success = False, message = InvalidPAT\<rparr>
                else if \<not> ok r then api_error_outcome r
                else check_profile email r) of
            Inr out \<Rightarrow> out
          | Inl error \<Rightarrow>
              if err_name error = ''AbortError''
              then \<lparr>success = False, message = RequestTimeout\<rparr>
              else \<lparr>success = False, message = NetworkException (err_message error)\<rparr>)"
  using assms
  by (simp add: verifyKoyebAccountStatus_def verify_request_def fetchWithTimeout_def
      split: sum.splits)

lemma ok_not_auth: "ok r \<Longrightarrow> status r \<noteq> 401 \<and> status r \<noteq> 403"
  by (simp add: ok_def)

lemma check_profile_typed:
  assumes "rbody r = Stream (Inr t) (Inr profileData)"
    and "get_prop profileData ''user'' = Inr u"
    and "js_or (field (js_or u (JObj [])) ''email'') (JStr []) = JStr returnedEmail"
    and "js_or (field (js_or u (JObj [])) ''flags'') (JArr []) = JArr (map JStr flags)"
    and "js_or (field (js_or u (JObj [])) ''email_validated'') (JBool False) = JBool emailValidated"
  shows "check_profile email r =
     Inr (if toLowerCase returnedEmail \<noteq> toLowerCase email then
            \<lparr>success = False, message = EmailMismatch returnedEmail\<rparr>
          else if ''ACTIVE'' \<notin> set flags then
            \<lparr>success = False, message = Inactive (join_strings '', '' flags)\<rparr>
          else if \<not> emailValidated then
            \<lparr>success = False, message = EmailNotValidated\<rparr>
          else \<lparr>success = True, message = ActiveValidated\<rparr>)"
  using assms
  by (auto simp: check_profile_def response_json_def Let_def get_prop_truthy truthy_js_or_obj
      account_status_def flags_includes_def flags_join_def js_join_strings)

lemma auth_failure_first:
  assumes "email \<noteq> []" and "pat \<noteq> []"
    and "net (fetches w) (profile_request pat) = Inr r"
    and "status r = 401 \<or> status r = 403"
  shows "fst (verifyKoyebAccountStatus net email pat w) =
     Inr \<lparr>success = False, message = InvalidPAT\<rparr>"
  using assms verify_on_response [of email pat net w r] by auto

lemma api_error_from_json:
  assumes "email \<noteq> []" and "pat \<noteq> []"
    and "net (fetches w) (profile_request pat) = Inr r"
    and "\<not> ok r" and "status r \<noteq> 401" and "status r \<noteq> 403"
    and "rbody r = Stream (Inr t) (Inr errorData)"
    and "get_prop errorData ''error'' = Inr v"
    and "js_to_string (js_or v (JStr (statusText r))) = Inr m"
  shows "fst (verifyKoyebAccountStatus net email pat w) =
     Inr \<lparr>success = False, message = ApiError (status r) m\<rparr>"
proof -
  have "api_error_outcome r = Inr \<lparr>success = False, message = ApiError (status r) m\<rparr>"
    using assms(7-9)
    by (simp add: api_error_outcome_def api_error_message_def response_json_def)
  then show ?thesis
    using assms verify_on_response [of email pat net w r] by simp
qed

lemma api_error_null_body:
  assumes "email \<noteq> []" and "pat \<noteq> []"
    and "net (fetches w) (profile_request pat) = Inr r"
    and "\<not> ok r" and "status r \<noteq> 401" and "status r \<noteq> 403"
    and "rbody r = NullBody"
  shows "fst (verifyKoyebAccountStatus net email pat w) =
     Inr \<lparr>success = False, message = ApiError (status r) []\<rparr>"
proof -
  have "api_error_outcome r = Inr \<lparr>success = False, message = ApiError (status r) []\<rparr>"
    using assms(7)
    by (simp add: api_error_outcome_def api_error_message_def response_json_def response_text_def)
  then show ?thesis
    using assms verify_on_response [of email pat net w r] by simp
qed

lemma verify_world:
  "snd (verifyKoyebAccountStatus net email pat w) =
     (if email = [] \<or> pat = [] then w
      else (emit (Fetch (profile_request pat)) w)\<lparr>fetches := fetches w + 1\<rparr>)"
  by (simp add: verifyKoyebAccountStatus_def verify_request_def fetchWithTimeout_def
      split: sum.splits prod.splits)

lemma verify_agree:
  assumes "\<And>n p. net' n (profile_request p) = net n (profile_request p)"
  shows "verifyKoyebAccountStatus net' = verifyKoyebAccountStatus net"
  by (intro ext)
     (simp add: verifyKoyebAccountStatus_def verify_request_def fetchWithTimeout_def assms)

subsection \<open>Traces\<close>

lemma checks_delayed_mono: "checks_delayed False evs \<Longrightarrow> checks_delayed p evs"
  by (cases evs) auto

lemma checks_delayed_append:
  "checks_delayed p xs \<Longrightarrow> checks_delayed False ys \<Longrightarrow> checks_delayed p (xs @ ys)"
  by (induction xs arbitrary: p) (auto intro: checks_delayed_mono)

lemma throttled_append: "throttled xs \<Longrightarrow> throttled ys \<Longrightarrow> throttled (xs @ ys)"
  by (simp add: throttled_def checks_delayed_append)

lemma quiet_checks_delayed: "quiet evs \<Longrightarrow> checks_delayed p evs"
  by (induction evs arbitrary: p) (simp_all add: quiet_def)

lemma quiet_no_fetch: "quiet evs \<Longrightarrow> filter is_profile_fetch evs = []"
  by (induction evs) (simp_all add: quiet_def)

lemma quiet_no_delay: "quiet evs \<Longrightarrow> filter is_delay evs = []"
  by (induction evs) (simp_all add: quiet_def)

lemma quiet_throttled: "quiet evs \<Longrightarrow> throttled evs"
  by (simp add: throttled_def quiet_checks_delayed quiet_no_fetch quiet_no_delay)

lemma quiet_append: "quiet xs \<Longrightarrow> quiet ys \<Longrightarrow> quiet (xs @ ys)"
  by (simp add: quiet_def)

lemma throttled_check: "throttled [Log l m, Sleep 10000, Fetch (profile_request p)]"
  by (simp add: throttled_def is_profile_fetch_def is_delay_def profile_request_def)

lemma tg_url_not_profile:
  "req_url (tg_request botToken chatId text) \<noteq> KOYEB_PROFILE_URL"
  by (simp add: tg_request_def KOYEB_PROFILE_URL_def)

lemma quietly_refl: "quietly w w"
  by (simp add: quietly_def quiet_def)

lemma quietly_trans: "quietly w w1 \<Longrightarrow> quietly w1 w2 \<Longrightarrow> quietly w w2"
  unfolding quietly_def using quiet_append by fastforce

lemma quietly_log: "quietly w (emit (Log l m) w)"
  by (simp add: quietly_def quiet_def emit_def is_profile_fetch_def is_delay_def)

lemma quietly_exit: "quietly w (emit (Exit n) w)"
  by (simp add: quietly_def quiet_def emit_def is_profile_fetch_def is_delay_def)

lemma quietly_logger:
  "quietly w (logger_info m w)" "quietly w (logger_warn m w)" "quietly w (logger_error m w)"
  by (simp_all add: logger_info_def logger_warn_def logger_error_def quietly_log)

lemma quietly_grows: "quietly w w' \<Longrightarrow> grows w w'"
  unfolding quietly_def grows_def using quiet_throttled by blast


lemma quietly_keeps: "quietly w w' \<Longrightarrow> ev \<in> set (trace w) \<Longrightarrow> ev \<in> set (trace w')"
  unfolding quietly_def by fastforce

lemma grows_refl: "grows w w"
  by (rule quietly_grows [OF quietly_refl])

lemma grows_trans: "grows w w1 \<Longrightarrow> grows w1 w2 \<Longrightarrow> grows w w2"
  unfolding grows_def using throttled_append by fastforce

lemma load_lines_quietly: "quietly w (snd (load_lines ls accounts w))"
proof (induction ls arbitrary: accounts w)
  case Nil
  then show ?case by (simp add: quietly_refl)
next
  case (Cons l ls)
  show ?case
    by (auto simp: Let_def
        intro: Cons quietly_trans [OF quietly_logger(2)] quietly_trans [OF quietly_logger(3)])
qed

lemma load_quietly: "quietly w (snd (validateAndLoadAccounts e w))"
  by (simp add: load_cases Let_def quietly_logger load_lines_quietly)

lemma tg_catch_quietly: "quietly w (snd (tg_catch error w))"
  by (simp add: tg_catch_def quietly_logger)

lemma tg_catch_null: "fst (tg_catch error w) = Inr JNull"
  by (simp add: tg_catch_def)

lemma quietly_tg_fetch:
  "quietly w (snd (fetchWithTimeout net (tg_request b c t) w))"
  unfolding quietly_def
  by (rule exI [of _ "[Fetch (tg_request b c t)]"])
     (simp add: fetchWithTimeout_def emit_def quiet_def is_profile_fetch_def is_delay_def
        tg_url_not_profile)

lemma send_cases:
  "sendTgMessage net e text w =
     (if env_value (TG_BOT_TOKEN e) = [] \<or> env_value (TG_CHAT_ID e) = [] then
        (Inr JNull,
         logger_warn
           ''[!] TG_BOT_TOKEN or TG_CHAT_ID is not set, skipping the Telegram message.'' w)
      else
        (let fw = fetchWithTimeout net
                    (tg_request (env_value (TG_BOT_TOKEN e)) (env_value (TG_CHAT_ID e)) text) w
         in case fst fw of
              Inl error \<Rightarrow> tg_catch error (snd fw)
            | Inr response \<Rightarrow>
                if \<not> ok response then
                  (case fst (response_text response False) of
                     Inl error \<Rightarrow> tg_catch error (snd fw)
                   | Inr errorText \<Rightarrow>
                       (Inr JNull,
                        logger_error (''[x] response body: '' @ errorText)
                          (logger_error
                             (''[x] HTTP error while sending the Telegram message: ''
                                @ show_nat (status response)) (snd fw))))
                else
                  (case fst (response_json response False) of
                     Inl error \<Rightarrow> tg_catch error (snd fw)
                   | Inr v \<Rightarrow> (Inr v, snd fw))))"
  by (simp add: sendTgMessage_def Let_def split: prod.splits sum.splits)

lemma send_quietly: "quietly w (snd (sendTgMessage net e text w))"
proof (cases "env_value (TG_BOT_TOKEN e) = [] \<or> env_value (TG_CHAT_ID e) = []")
  case True
  then show ?thesis by (simp add: send_cases quietly_logger)
next
  case False
  define fw where "fw = fetchWithTimeout net
      (tg_request (env_value (TG_BOT_TOKEN e)) (env_value (TG_CHAT_ID e)) text) w"
  have g: "quietly w (snd fw)" unfolding fw_def by (rule quietly_tg_fetch)
  have c: "quietly w (snd (tg_catch error (snd fw)))" for error
    by (rule quietly_trans [OF g tg_catch_quietly])
  have l: "quietly w (logger_error a (logger_error b (snd fw)))" for a b
    by (rule quietly_trans [OF g quietly_trans [OF quietly_logger(3) quietly_logger(3)]])
  have "sendTgMessage net e text w =
      (case fst fw of
         Inl error \<Rightarrow> tg_catch error (snd fw)
       | Inr response \<Rightarrow>
           if \<not> ok response then
             (case fst (response_text response False) of
                Inl error \<Rightarrow> tg_catch error (snd fw)
              | Inr errorText \<Rightarrow>
                  (Inr JNull,
                   logger_error (''[x] response body: '' @ errorText)
                     (logger_error
                        (''[x] HTTP error while sending the Telegram message: ''
                           @ show_nat (status response)) (snd fw))))
           else
             (case fst (response_json response False) of
                Inl error \<Rightarrow> tg_catch error (snd fw)
              | Inr v \<Rightarrow> (Inr v, snd fw)))"
    using False unfolding fw_def by (simp add: send_cases Let_def)
  then show ?thesis
    using g c l by (simp split: sum.splits)
qed

lemma send_total: "\<exists>v. fst (sendTgMessage net e text w) = Inr v"
  by (simp add: send_cases Let_def tg_catch_null split: sum.splits)

lemma send_request_made:
  assumes "env_value (TG_BOT_TOKEN e) \<noteq> []" and "env_value (TG_CHAT_ID e) \<noteq> []"
  shows "Fetch (tg_request (env_value (TG_BOT_TOKEN e)) (env_value (TG_CHAT_ID e)) text)
           \<in> set (trace (snd (sendTgMessage net e text w)))"
proof -
  define rq where "rq = tg_request (env_value (TG_BOT_TOKEN e)) (env_value (TG_CHAT_ID e)) text"
  define fw where "fw = fetchWithTimeout net rq w"
  have f: "Fetch rq \<in> set (trace (snd fw))"
    unfolding fw_def by (simp add: fetchWithTimeout_def emit_def)
  have c: "Fetch rq \<in> set (trace (snd (tg_catch error (snd fw))))" for error
    by (rule quietly_keeps [OF tg_catch_quietly f])
  have l: "Fetch rq \<in> set (trace (logger_error a (logger_error b (snd fw))))" for a b
    by (rule quietly_keeps [OF quietly_trans [OF quietly_logger(3) quietly_logger(3)] f])
  have "sendTgMessage net e text w =
      (case fst fw of
         Inl error \<Rightarrow> tg_catch error (snd fw)
       | Inr response \<Rightarrow>
           if \<not> ok response then
             (case fst (response_text response False) of
                Inl error \<Rightarrow> tg_catch error (snd fw)
              | Inr errorText \<Rightarrow>
                  (Inr JNull,
                   logger_error (''[x] response body: '' @ errorText)
                     (logger_error
                        (''[x] HTTP error while sending the Telegram message: ''
                           @ show_nat (status response)) (snd fw))))
           else
             (case fst (response_json response False) of
                Inl error \<Rightarrow> tg_catch error (snd fw)
              | Inr v \<Rightarrow> (Inr v, snd fw)))"
    using assms unfolding fw_def rq_def by (simp add: send_cases Let_def)
  then have "Fetch rq \<in> set (trace (snd (sendTgMessage net e text w)))"
    using f c l by (simp split: sum.splits)
  then show ?thesis unfolding rq_def .
qed

subsection \<open>The loop and the run\<close>

lemma process_cases:
  "process_account V tot i a st =
     (if trim (acc_email a) = [] \<or> acc_pat a = [] then
           st\<lparr>results := results st @ [line_incomplete],
              lworld :=
                logger_warn
                  (''[!] account '' @ show_nat (i + 1) @ ''/'' @ show_nat tot
                     @ '' is incomplete, skipped'')
                  (lworld st)\<rparr>
      else
        (let r = V (trim (acc_email a)) (acc_pat a)
                   (start_check tot i (trim (acc_email a)) (lworld st))
         in case fst r of
              Inr out \<Rightarrow>
                if success out then
                  st\<lparr>results := results st @ [line_success (trim (acc_email a)) (message out)],
                     successCount := successCount st + 1,
                     lworld := snd r\<rparr>
                else
                  st\<lparr>results := results st @ [line_failure (trim (acc_email a)) (message out)],
                     lworld := snd r\<rparr>
            | Inl error \<Rightarrow>
                st\<lparr>results := results st @ [line_exception (trim (acc_email a)) error],
                   lworld :=
                     logger_error
                       (''[x] unknown exception while processing account ''
                          @ trim (acc_email a) @ '': '' @ err_message error)
                       (snd r)\<rparr>))"
  unfolding process_account_def Let_def
  by (cases "V (trim (acc_email a)) (acc_pat a)
               (start_check tot i (trim (acc_email a)) (lworld st))")
     (simp split: sum.splits)

lemma process_results_length:
  "length (results (process_account V tot i a st)) = Suc (length (results st))"
  by (simp add: process_cases Let_def split: sum.splits)

lemma loop_results_length:
  "length (results (verify_accounts V tot i accs st)) = length (results st) + length accs"
  by (induction accs arbitrary: i st) (simp_all add: process_results_length)

lemma process_success_le:
  "successCount (process_account V tot i a st) \<le> Suc (successCount st)"
  by (simp add: process_cases Let_def split: sum.splits)

lemma loop_success_le:
  "successCount (verify_accounts V tot i accs st) \<le> successCount st + length accs"
proof (induction accs arbitrary: i st)
  case Nil
  then show ?case by simp
next
  case (Cons a accs)
  have "successCount (verify_accounts V tot (i + 1) accs (process_account V tot i a st))
          \<le> successCount (process_account V tot i a st) + length accs"
    by (rule Cons)
  also have "\<dots> \<le> Suc (successCount st) + length accs"
    using process_success_le [of V tot i a st] by simp
  finally show ?case by simp
qed

lemma process_line_head:
  assumes "complete a"
  shows "\<exists>l. results (process_account V tot i a st) = results st @ [l]
           \<and> prefix (''Account: `'' @ trim (acc_email a) @ ''`\<newline>'') l"
  using assms
  by (simp add: process_cases Let_def complete_def line_success_def line_failure_def
      line_exception_def split: sum.splits)

lemma loop_line_heads:
  assumes "\<And>a. a \<in> set accs \<Longrightarrow> complete a \<and> trim (acc_email a) = acc_email a"
  shows "\<exists>new. results (verify_accounts V tot i accs st) = results st @ new
           \<and> list_all2 (\<lambda>a l. prefix (account_head a) l) accs new"
  using assms
proof (induction accs arbitrary: i st)
  case Nil
  then show ?case by simp
next
  case (Cons a accs)
  have ca: "complete a" and ta: "trim (acc_email a) = acc_email a"
    using Cons.prems [of a] by simp_all
  obtain l where l: "results (process_account V tot i a st) = results st @ [l]"
      "prefix (account_head a) l"
    using process_line_head [OF ca, of V tot i st] ta by (auto simp: account_head_def)
  obtain new where new:
      "results (verify_accounts V tot (i + 1) accs (process_account V tot i a st)) =
         results (process_account V tot i a st) @ new"
      "list_all2 (\<lambda>a l. prefix (account_head a) l) accs new"
    using Cons.IH [of "i + 1" "process_account V tot i a st"] Cons.prems by auto
  show ?case
    using l new by (intro exI [of _ "l # new"]) simp
qed

lemma process_check_trace:
  assumes "complete a"
  shows "\<exists>m. trace (lworld (process_account (verifyKoyebAccountStatus net) tot i a st)) =
            trace (lworld st) @ [Log INFO m, Sleep 10000, Fetch (profile_request (acc_pat a))]"
proof -
  define w0 where "w0 = start_check tot i (trim (acc_email a)) (lworld st)"
  obtain out where o:
      "fst (verifyKoyebAccountStatus net (trim (acc_email a)) (acc_pat a) w0) = Inr out"
    using verify_total by blast
  have s: "snd (verifyKoyebAccountStatus net (trim (acc_email a)) (acc_pat a) w0) =
      (emit (Fetch (profile_request (acc_pat a))) w0)\<lparr>fetches := fetches w0 + 1\<rparr>"
    using assms by (simp add: verify_world complete_def)
  have "lworld (process_account (verifyKoyebAccountStatus net) tot i a st) =
      (emit (Fetch (profile_request (acc_pat a))) w0)\<lparr>fetches := fetches w0 + 1\<rparr>"
    using assms o s unfolding w0_def by (simp add: process_cases Let_def complete_def)
  then show ?thesis
    unfolding w0_def by (simp add: start_check_def sleep_def logger_info_def emit_def)
qed

lemma process_skip_trace:
  assumes "\<not> complete a"
  shows "\<exists>m. trace (lworld (process_account V tot i a st)) = trace (lworld st) @ [Log WARN m]"
  using assms
  by (auto simp: process_cases complete_def logger_warn_def emit_def)

lemma process_grows:
  "grows (lworld st) (lworld (process_account (verifyKoyebAccountStatus net) tot i a st))"
proof (cases "complete a")
  case True
  from process_check_trace [OF True] show ?thesis
    unfolding grows_def using throttled_check by blast
next
  case False
  have "quietly (lworld st) (lworld (process_account (verifyKoyebAccountStatus net) tot i a st))"
    using process_skip_trace [OF False]
    unfolding quietly_def quiet_def by (fastforce simp: is_profile_fetch_def is_delay_def)
  then show ?thesis by (rule quietly_grows)
qed

lemma loop_grows:
  "grows (lworld st) (lworld (verify_accounts (verifyKoyebAccountStatus net) tot i accs st))"
proof (induction accs arbitrary: i st)
  case Nil
  then show ?case by (simp add: grows_refl)
next
  case (Cons a accs)
  show ?case
    using grows_trans [OF process_grows Cons] by simp
qed

lemma main_catch_cases:
  "main_catch net e error w =
     (let errorMessage = ''[x] initialisation failed: '' @ err_message error;
          r = sendTgMessage net e errorMessage (logger_error errorMessage w)
      in case fst r of
           Inl thrown \<Rightarrow> (Inl thrown, snd r)
         | Inr sent \<Rightarrow> (Inr 1, emit (Exit 1) (snd r)))"
  by (simp add: main_catch_def Let_def split: prod.splits sum.splits)

lemma main_catch_quietly: "quietly w (snd (main_catch net e error w))"
proof -
  have "quietly w (snd (sendTgMessage net e m (logger_error m w)))" for m
    by (rule quietly_trans [OF quietly_logger(3) send_quietly])
  then show ?thesis
    by (auto simp: main_catch_cases Let_def split: sum.splits
        intro: quietly_trans [OF _ quietly_exit])
qed

lemma main_catch_exit: "fst (main_catch net e error w) = Inr 1"
  using send_total [of net e "''[x] initialisation failed: '' @ err_message error"
      "logger_error (''[x] initialisation failed: '' @ err_message error) w"]
  by (auto simp: main_catch_cases Let_def split: sum.splits)

lemma main_with_cases:
  "main_with V net e now w =
     (let l = validateAndLoadAccounts e w in
      case fst l of
        Inl error \<Rightarrow> main_catch net e error (snd l)
      | Inr accs \<Rightarrow>
          (let st = verify_accounts V (length accs) 0 accs
                      \<lparr>results = [], successCount = 0, lworld = snd l\<rparr>;
               R = build_report now (length accs) (successCount st) (results st);
               s = sendTgMessage net e R
                     (logger_info (''--- report preview ---\<newline>'' @ R) (lworld st))
           in case fst s of
                Inl error \<Rightarrow> main_catch net e error (snd s)
              | Inr sent \<Rightarrow>
                  if successCount st = 0 \<and> 0 < length accs then
                    (Inr 1,
                     emit (Exit 1)
                       (logger_error
                          ''[x] every account failed verification, exiting with a non-zero status''
                          (logger_info ''script finished.'' (snd s))))
                  else (Inr 0, logger_info ''script finished.'' (snd s))))"
  by (simp add: main_with_def Let_def split: prod.splits sum.splits)

lemma main_exit_failed:
  assumes "fst (validateAndLoadAccounts e w) = Inl error"
  shows "fst (main_with V net e now w) = Inr 1"
  using assms by (simp add: main_with_cases Let_def main_catch_exit)

lemma main_exit_loaded:
  assumes "validateAndLoadAccounts e w = (Inr accs, w1)"
  shows "fst (main_with V net e now w) =
     Inr (if 0 < length accs
            \<and> successCount (verify_accounts V (length accs) 0 accs
                 \<lparr>results = [], successCount = 0, lworld = w1\<rparr>) = 0
          then 1 else 0)"
proof -
  define st where "st = verify_accounts V (length accs) 0 accs
      \<lparr>results = [], successCount = 0, lworld = w1\<rparr>"
  define R where "R = build_report now (length accs) (successCount st) (results st)"
  obtain v where v: "fst (sendTgMessage net e R
      (logger_info (''--- report preview ---\<newline>'' @ R) (lworld st))) = Inr v"
    using send_total by blast
  show ?thesis
    using assms v unfolding st_def R_def
    by (simp add: main_with_cases Let_def)
qed

lemma main_failed_quietly:
  assumes "fst (validateAndLoadAccounts e w) = Inl error"
  shows "quietly w (snd (main_with V net e now w))"
  using assms quietly_trans [OF load_quietly main_catch_quietly]
  by (simp add: main_with_cases Let_def)

lemma main_after_loop:
  assumes "validateAndLoadAccounts e w = (Inr accs, w1)"
    and "st = verify_accounts V (length accs) 0 accs
                \<lparr>results = [], successCount = 0, lworld = w1\<rparr>"
    and "R = build_report now (length accs) (successCount st) (results st)"
  shows "quietly (lworld st) (snd (main_with V net e now w))"
    and "Log INFO (''--- report preview ---\<newline>'' @ R)
           \<in> set (trace (snd (main_with V net e now w)))"
    and "env_value (TG_BOT_TOKEN e) \<noteq> [] \<and> env_value (TG_CHAT_ID e) \<noteq> [] \<longrightarrow>
         Fetch (tg_request (env_value (TG_BOT_TOKEN e)) (env_value (TG_CHAT_ID e)) R)
           \<in> set (trace (snd (main_with V net e now w)))"
proof -
  define w2 where "w2 = logger_info (''--- report preview ---\<newline>'' @ R) (lworld st)"
  define s where "s = sendTgMessage net e R w2"
  obtain v where v: "fst s = Inr v"
    unfolding s_def using send_total by blast
  have m: "snd (main_with V net e now w) =
      (if successCount st = 0 \<and> 0 < length accs then
         emit (Exit 1)
           (logger_error
              ''[x] every account failed verification, exiting with a non-zero status''
              (logger_info ''script finished.'' (snd s)))
       else logger_info ''script finished.'' (snd s))"
    using assms(1) v unfolding s_def w2_def assms(3) assms(2)
    by (simp add: main_with_cases Let_def)
  have q1: "quietly (lworld st) w2"
    unfolding w2_def by (rule quietly_logger)
  have q2: "quietly w2 (snd s)"
    unfolding s_def by (rule send_quietly)
  have q3: "quietly (snd s) (snd (main_with V net e now w))"
    unfolding m
    by (auto intro: quietly_logger
        quietly_trans [OF quietly_logger(1) quietly_trans [OF quietly_logger(3) quietly_exit]])
  have q23: "quietly w2 (snd (main_with V net e now w))"
    by (rule quietly_trans [OF q2 q3])
  have "Log INFO (''--- report preview ---\<newline>'' @ R) \<in> set (trace w2)"
    unfolding w2_def by (simp add: logger_info_def emit_def)
  then show "Log INFO (''--- report preview ---\<newline>'' @ R)
      \<in> set (trace (snd (main_with V net e now w)))"
    by (rule quietly_keeps [OF q23])
  show "quietly (lworld st) (snd (main_with V net e now w))"
    by (rule quietly_trans [OF q1 q23])
  show "env_value (TG_BOT_TOKEN e) \<noteq> [] \<and> env_value (TG_CHAT_ID e) \<noteq> [] \<longrightarrow>
         Fetch (tg_request (env_value (TG_BOT_TOKEN e)) (env_value (TG_CHAT_ID e)) R)
           \<in> set (trace (snd (main_with V net e now w)))"
  proof
    assume "env_value (TG_BOT_TOKEN e) \<noteq> [] \<and> env_value (TG_CHAT_ID e) \<noteq> []"
    then have "Fetch (tg_request (env_value (TG_BOT_TOKEN e)) (env_value (TG_CHAT_ID e)) R)
        \<in> set (trace (snd s))"
      unfolding s_def using send_request_made by blast
    then show "Fetch (tg_request (env_value (TG_BOT_TOKEN e)) (env_value (TG_CHAT_ID e)) R)
        \<in> set (trace (snd (main_with V net e now w)))"
      by (rule quietly_keeps [OF q3])
  qed
qed

lemma main_grows: "grows w (snd (main net e now w))"
proof (cases "fst (validateAndLoadAccounts e w)")
  case (Inl error)
  then show ?thesis
    unfolding main_def by (rule quietly_grows [OF main_failed_quietly])
next
  case (Inr accs)
  then have l: "validateAndLoadAccounts e w = (Inr accs, snd (validateAndLoadAccounts e w))"
    by (metis prod.collapse)
  have g1: "grows w (snd (validateAndLoadAccounts e w))"
    by (rule quietly_grows [OF load_quietly])
  have g2: "grows (snd (validateAndLoadAccounts e w))
      (lworld (verify_accounts (verifyKoyebAccountStatus net) (length accs) 0 accs
         \<lparr>results = [], successCount = 0, lworld = snd (validateAndLoadAccounts e w)\<rparr>))"
    using loop_grows [of "\<lparr>results = [], successCount = 0,
        lworld = snd (validateAndLoadAccounts e w)\<rparr>" net "length accs" 0 accs]
    by simp
  have g3: "grows
      (lworld (verify_accounts (verifyKoyebAccountStatus net) (length accs) 0 accs
         \<lparr>results = [], successCount = 0, lworld = snd (validateAndLoadAccounts e w)\<rparr>))
      (snd (main net e now w))"
    unfolding main_def by (rule quietly_grows [OF main_after_loop(1) [OF l refl refl]])
  show ?thesis
    by (rule grows_trans [OF g1 grows_trans [OF g2 g3]])
qed

lemma show_failures: "s \<le> n \<Longrightarrow> show_int (int n - int s) = show_nat (n - s)"
  by (simp add: show_int_def nat_diff_distrib')

subsection \<open>The examples, evaluated\<close>

lemma load_two_accounts:
  "validateAndLoadAccounts two_accounts world0 = (Inr [account_a, account_b], world0)"
  by code_simp

lemma loop_example_successes:
  "successCount (verify_accounts (verifyKoyebAccountStatus one_good_one_denied)
      (length [account_a, account_b]) 0 [account_a, account_b]
      \<lparr>results = [], successCount = 0, lworld = world0\<rparr>) = 1"
  by code_simp

lemma loop_example_results:
  "results (verify_accounts (verifyKoyebAccountStatus one_good_one_denied)
      (length [account_a, account_b]) 0 [account_a, account_b]
      \<lparr>results = [], successCount = 0, lworld = world0\<rparr>) =
   [''Account: `a@x.com`\<newline>Status: [ok] active and email validated\<newline>'',
    ''Account: `b@x.com`\<newline>Status: [x] verification failed\<newline>  verification failed: the PAT is invalid or has expired.\<newline>'']"
  by code_simp

lemma loop_example_trace:
  "trace (lworld (verify_accounts (verifyKoyebAccountStatus one_good_one_denied)
      (length [account_a, account_b]) 0 [account_a, account_b]
      \<lparr>results = [], successCount = 0, lworld = world0\<rparr>)) =
   [Log INFO ''processing account 1/2: a@x.com'', Sleep 10000, Fetch (profile_request ''tok1''),
    Log INFO ''processing account 2/2: b@x.com'', Sleep 10000, Fetch (profile_request ''tok2'')]"
  by code_simp


section \<open>The claims\<close>

text \<open>
  C1. For a 2xx response whose body parses to a profile (the user object has a string
  email, a list of string flags and a boolean email_validated, each possibly absent):
  the outcome is the mismatch failure when the returned email differs from the requested
  one after lower-casing, whatever the flags and the validation say; otherwise the
  inactive failure when "ACTIVE" is not among the flags; otherwise the email-not-validated
  failure when email_validated is false; otherwise success.
\<close>

theorem profile_decision_chain:
  assumes "email \<noteq> []" and "pat \<noteq> []"
    and "net (fetches w) (profile_request pat) = Inr r"
    and "ok r"
    and "rbody r = Stream (Inr t) (Inr profileData)"
    and "get_prop profileData ''user'' = Inr u"
    and "js_or (field (js_or u (JObj [])) ''email'') (JStr []) = JStr returnedEmail"
    and "js_or (field (js_or u (JObj [])) ''flags'') (JArr []) = JArr (map JStr flags)"
    and "js_or (field (js_or u (JObj [])) ''email_validated'') (JBool False) = JBool emailValidated"
  shows "fst (verifyKoyebAccountStatus net email pat w) =
     Inr (if toLowerCase returnedEmail \<noteq> toLowerCase email then
            \<lparr>success = False, message = EmailMismatch returnedEmail\<rparr>
          else if ''ACTIVE'' \<notin> set flags then
            \<lparr>success = False, message = Inactive (join_strings '', '' flags)\<rparr>
          else if \<not> emailValidated then
            \<lparr>success = False, message = EmailNotValidated\<rparr>
          else \<lparr>success = True, message = ActiveValidated\<rparr>)"
proof -
  have "status r \<noteq> 401 \<and> status r \<noteq> 403" using assms(4) by (rule ok_not_auth)
  then show ?thesis
    using assms(1-4) verify_on_response [of email pat net w r] check_profile_typed [OF assms(5-9)]
    by simp
qed

theorem profile_decision_chain_witness:
  "fst (verifyKoyebAccountStatus one_good_one_denied ''a@x.com'' ''tok1'' world0) =
     Inr \<lparr>success = True, message = ActiveValidated\<rparr>"
proof -
  let ?r = "json_response 200 ''OK'' (profile_json ''A@x.com'' [''ACTIVE''] True)"
  let ?u = "JObj [(''email'', JStr ''A@x.com''), (''flags'', JArr (map JStr [''ACTIVE''])),
                  (''email_validated'', JBool True)]"
  have h1: "''a@x.com'' \<noteq> []" and h2: "''tok1'' \<noteq> []" by simp_all
  have h3: "one_good_one_denied (fetches world0) (profile_request ''tok1'') = Inr ?r"
    by (simp add: one_good_one_denied_def answers_def world0_def)
  have h4: "ok ?r" by (simp add: ok_def json_response_def)
  have h5: "rbody ?r =
      Stream (Inr (string_or_undefined (JSON_stringify (profile_json ''A@x.com'' [''ACTIVE''] True))))
        (Inr (profile_json ''A@x.com'' [''ACTIVE''] True))"
    by (simp add: json_response_def)
  have h6: "get_prop (profile_json ''A@x.com'' [''ACTIVE''] True) ''user'' = Inr ?u"
    by (simp add: profile_json_def)
  have h7: "js_or (field (js_or ?u (JObj [])) ''email'') (JStr []) = JStr ''A@x.com''"
    by (simp add: js_or_def field_def)
  have h8: "js_or (field (js_or ?u (JObj [])) ''flags'') (JArr []) = JArr (map JStr [''ACTIVE''])"
    by (simp add: js_or_def field_def)
  have h9: "js_or (field (js_or ?u (JObj [])) ''email_validated'') (JBool False) = JBool True"
    by (simp add: js_or_def field_def)
  have c: "toLowerCase ''A@x.com'' = toLowerCase ''a@x.com''" by code_simp
  show ?thesis
    using profile_decision_chain [of "''a@x.com''" "''tok1''" one_good_one_denied world0 ?r
        _ _ ?u "''A@x.com''" "[''ACTIVE'']" True, OF h1 h2 h3 h4 h5 h6 h7 h8 h9] c
    by simp
qed

text \<open>
  C2. The loop over the lines of the input collects exactly the accounts of the well-formed
  lines, in the order of the lines: \<open>spec_accounts\<close> splits the input on newlines, keeps
  the lines that are not empty, have a colon and have a non-empty identity and secret
  around the first colon, both trimmed, and makes one account of each. No line raises; the
  function returns that list when it is not empty, and raises its configuration error
  when it is.
\<close>

theorem accounts_of_well_formed_lines:
  "fst (load_lines (split_nl (trim raw)) [] w) = spec_accounts raw
   \<and> length (spec_accounts raw) = length (filter well_formed_line (split_nl raw))
   \<and> (KOYEB_LOGIN e = Some raw \<longrightarrow>
        fst (validateAndLoadAccounts e w) =
          (if spec_accounts raw = []
           then Inl (if raw = [] then err_login_unset else err_no_accounts)
           else Inr (spec_accounts raw)))"
proof (intro conjI impI)
  show "fst (load_lines (split_nl (trim raw)) [] w) = spec_accounts raw"
    by (rule loaded_accounts)
  show "length (spec_accounts raw) = length (filter well_formed_line (split_nl raw))"
    by (simp add: spec_accounts_def)
next
  assume "KOYEB_LOGIN e = Some raw"
  then have "env_value (KOYEB_LOGIN e) = raw" by (simp add: env_value_def)
  then show "fst (validateAndLoadAccounts e w) =
          (if spec_accounts raw = []
           then Inl (if raw = [] then err_login_unset else err_no_accounts)
           else Inr (spec_accounts raw))"
    using spec_accounts_Nil by (auto simp: load_result)
qed

theorem accounts_of_well_formed_lines_witness:
  "fst (validateAndLoadAccounts
          \<lparr>KOYEB_LOGIN = Some messy_input, TG_BOT_TOKEN = None, TG_CHAT_ID = None\<rparr> world0) =
     Inr [\<lparr>acc_email = ''a@x.com'', acc_pat = ''tok:1''\<rparr>,
          \<lparr>acc_email = ''b@y.org'', acc_pat = ''t2''\<rparr>]"
proof -
  have s: "spec_accounts messy_input =
      [\<lparr>acc_email = ''a@x.com'', acc_pat = ''tok:1''\<rparr>,
       \<lparr>acc_email = ''b@y.org'', acc_pat = ''t2''\<rparr>]"
    by code_simp
  show ?thesis
    using accounts_of_well_formed_lines [of messy_input world0
        "\<lparr>KOYEB_LOGIN = Some messy_input, TG_BOT_TOKEN = None, TG_CHAT_ID = None\<rparr>"]
    by (simp add: s)
qed



text \<open>
  C4. The claim says that, for a status outside 2xx other than 401 and 403, the reason
  carries the status and a message from the JSON body, or the raw text of the response
  when the body is not JSON. The script reads the body with \<open>response.json()\<close> first and
  calls \<open>response.text()\<close> on the same response in the \<open>catch\<close>: the body has been read,
  the second read is rejected, and the rejection leaves the inner \<open>catch\<close> for the outer
  one. For every such response with a body that is not JSON the outcome is the
  network-exception failure, with neither the status nor the text of the response.
\<close>

theorem api_error_fallback_body_already_read:
  assumes "email \<noteq> []" and "pat \<noteq> []"
    and "net (fetches w) (profile_request pat) = Inr r"
    and "\<not> ok r" and "status r \<noteq> 401" and "status r \<noteq> 403"
    and "rbody r = Stream (Inr t) (Inl m)"
  shows "fst (verifyKoyebAccountStatus net email pat w) =
     Inr \<lparr>success = False,
          message = NetworkException ''Body is unusable: Body has already been read''\<rparr>"
proof -
  have "api_error_outcome r = Inl err_body_used"
    using assms(7)
    by (simp add: api_error_outcome_def api_error_message_def response_json_def response_text_def)
  then show ?thesis
    using assms verify_on_response [of email pat net w r]
    by (simp add: err_body_used_def type_error_def)
qed

theorem api_error_fallback_body_already_read_witness:
  "fst (verifyKoyebAccountStatus bad_gateway ''a@x.com'' ''tok1'' world0) =
     Inr \<lparr>success = False,
          message = NetworkException ''Body is unusable: Body has already been read''\<rparr>"
proof -
  let ?r = "text_response 502 ''Bad Gateway'' ''<html>502 Bad Gateway</html>''
              ''Unexpected token < in JSON at position 0''"
  have h1: "''a@x.com'' \<noteq> []" and h2: "''tok1'' \<noteq> []" by simp_all
  have h3: "bad_gateway (fetches world0) (profile_request ''tok1'') = Inr ?r"
    by (simp add: bad_gateway_def answers_def world0_def)
  have h4: "\<not> ok ?r" and h5: "status ?r \<noteq> 401" and h6: "status ?r \<noteq> 403"
    by (simp_all add: ok_def text_response_def)
  have h7: "rbody ?r =
      Stream (Inr ''<html>502 Bad Gateway</html>'') (Inl ''Unexpected token < in JSON at position 0'')"
    by (simp add: text_response_def)
  show ?thesis
    by (rule api_error_fallback_body_already_read
        [of "''a@x.com''" "''tok1''" bad_gateway world0 ?r, OF h1 h2 h3 h4 h5 h6 h7])
qed

text \<open>
  C5. When the check of an account throws, the loop appends for that account the failure
  line that carries the message of the exception, logs the exception, leaves the success
  count as it is, and goes on with the rest of the accounts: every account of the list
  gets its line.
\<close>

theorem exception_recorded_and_loop_continues:
  assumes "complete a"
    and "V (trim (acc_email a)) (acc_pat a)
           (start_check tot i (trim (acc_email a)) (lworld st)) = (Inl error, w1)"
  shows "verify_accounts V tot i (a # rest) st =
           verify_accounts V tot (i + 1) rest
             (st\<lparr>results :=
                   results st
                     @ [''Account: `'' @ trim (acc_email a)
                          @ ''`\<newline>Status: [x] verification failed\<newline>''
                          @ ''  unknown exception while running - '' @ err_message error
                          @ ''\<newline>''],
                 lworld :=
                   logger_error
                     (''[x] unknown exception while processing account ''
                        @ trim (acc_email a) @ '': '' @ err_message error) w1\<rparr>)
         \<and> results (process_account V tot i a st) =
             results st
               @ [''Account: `'' @ trim (acc_email a)
                    @ ''`\<newline>Status: [x] verification failed\<newline>''
                    @ ''  unknown exception while running - '' @ err_message error
                    @ ''\<newline>'']
         \<and> successCount (process_account V tot i a st) = successCount st
         \<and> length (results (verify_accounts V tot i (a # rest) st))
             = length (results st) + 1 + length rest"
proof -
  have "process_account V tot i a st =
      st\<lparr>results :=
            results st
              @ [''Account: `'' @ trim (acc_email a)
                   @ ''`\<newline>Status: [x] verification failed\<newline>''
                   @ ''  unknown exception while running - '' @ err_message error
                   @ ''\<newline>''],
         lworld :=
           logger_error
             (''[x] unknown exception while processing account ''
                @ trim (acc_email a) @ '': '' @ err_message error) w1\<rparr>"
    using assms by (simp add: process_cases Let_def complete_def line_exception_def)
  then show ?thesis
    using loop_results_length [of V tot i "a # rest" st] by simp
qed

theorem exception_recorded_and_loop_continues_witness:
  "results (verify_accounts always_throws 2 0 [account_a, account_b] state0) =
     [''Account: `a@x.com`\<newline>Status: [x] verification failed\<newline>  unknown exception while running - no route for tok1\<newline>'',
      ''Account: `b@x.com`\<newline>Status: [x] verification failed\<newline>  unknown exception while running - no route for tok2\<newline>'']
   \<and> successCount (verify_accounts always_throws 2 0 [account_a, account_b] state0) = 0"
proof -
  have ta: "trim ''a@x.com'' = ''a@x.com''" and tb: "trim ''b@x.com'' = ''b@x.com''"
    by code_simp+
  have ca: "complete account_a" and cb: "complete account_b"
    by (simp_all add: complete_def account_a_def account_b_def ta tb)
  define ea where "ea = JsError ''Error'' (''no route for '' @ acc_pat account_a)"
  define eb where "eb = JsError ''Error'' (''no route for '' @ acc_pat account_b)"
  define st1 where "st1 = state0
      \<lparr>results :=
          results state0
            @ [''Account: `'' @ trim (acc_email account_a)
                 @ ''`\<newline>Status: [x] verification failed\<newline>''
                 @ ''  unknown exception while running - '' @ err_message ea
                 @ ''\<newline>''],
        lworld := logger_error
           (''[x] unknown exception while processing account '' @ trim (acc_email account_a)
              @ '': '' @ err_message ea)
           (start_check 2 0 (trim (acc_email account_a)) (lworld state0))\<rparr>"
  have s1: "verify_accounts always_throws 2 0 [account_a, account_b] state0 =
      verify_accounts always_throws 2 (0 + 1) [account_b] st1"
    unfolding st1_def
    using exception_recorded_and_loop_continues
      [of account_a always_throws 2 0 state0 ea
          "start_check 2 0 (trim (acc_email account_a)) (lworld state0)" "[account_b]", OF ca]
    by (simp add: always_throws_def ea_def)
  have s2: "verify_accounts always_throws 2 (0 + 1) [account_b] st1 =
      verify_accounts always_throws 2 (0 + 1 + 1) []
        (st1\<lparr>results :=
              results st1
                @ [''Account: `'' @ trim (acc_email account_b)
                     @ ''`\<newline>Status: [x] verification failed\<newline>''
                     @ ''  unknown exception while running - '' @ err_message eb
                     @ ''\<newline>''],
            lworld := logger_error
               (''[x] unknown exception while processing account '' @ trim (acc_email account_b)
                  @ '': '' @ err_message eb)
               (start_check 2 (0 + 1) (trim (acc_email account_b)) (lworld st1))\<rparr>)"
    using exception_recorded_and_loop_continues
      [of account_b always_throws 2 "0 + 1" st1 eb
          "start_check 2 (0 + 1) (trim (acc_email account_b)) (lworld st1)" "[]", OF cb]
    by (simp add: always_throws_def eb_def)
  show ?thesis
    unfolding s1 s2
    by (simp add: st1_def state0_def account_a_def account_b_def ta tb ea_def eb_def)
qed

text \<open>
  C6. When the accounts are loaded, the run builds one report, logs it and, when Telegram
  is configured, posts it: the header with the time stamp, the summary with the total,
  the success count and the failure count, which is the total minus the success count,
  the separator, and then the lines of the accounts, concatenated in the order in which
  they were recorded. There is one line for each account, in the order of the accounts.
\<close>

theorem report_in_account_order:
  assumes "validateAndLoadAccounts e w = (Inr accs, w1)"
    and "st = verify_accounts V (length accs) 0 accs
                \<lparr>results = [], successCount = 0, lworld = w1\<rparr>"
    and "R = ''*Koyeb account status report*\<newline>=====================\<newline>Date: ''
            @ now @ ''\<newline>''
            @ ''Total: '' @ show_nat (length accs) @ '' accounts\<newline>Succeeded: ''
            @ show_nat (successCount st) @ '' | Failed: ''
            @ show_nat (length accs - successCount st)
            @ ''\<newline>---------------------------\<newline>'' @ concat (results st)"
  shows "Log INFO (''--- report preview ---\<newline>'' @ R)
           \<in> set (trace (snd (main_with V net e now w)))
         \<and> (env_value (TG_BOT_TOKEN e) \<noteq> [] \<and> env_value (TG_CHAT_ID e) \<noteq> [] \<longrightarrow>
              Fetch (tg_request (env_value (TG_BOT_TOKEN e)) (env_value (TG_CHAT_ID e)) R)
                \<in> set (trace (snd (main_with V net e now w))))
         \<and> successCount st \<le> length accs
         \<and> list_all2 (\<lambda>a l. prefix (''Account: `'' @ acc_email a @ ''`\<newline>'') l)
               accs (results st)"
proof -
  have le: "successCount st \<le> length accs"
    using loop_success_le [of V "length accs" 0 accs
        "\<lparr>results = [], successCount = 0, lworld = w1\<rparr>"]
    by (simp add: assms(2))
  have "accs = spec_accounts (env_value (KOYEB_LOGIN e))"
    using assms(1) by (auto simp: load_cases Let_def split: if_splits)
  then have "\<And>a. a \<in> set accs \<Longrightarrow> complete a \<and> trim (acc_email a) = acc_email a"
    using spec_accounts_complete by blast
  then have "list_all2 (\<lambda>a l. prefix (account_head a) l) accs (results st)"
    using loop_line_heads [of accs V "length accs" 0
        "\<lparr>results = [], successCount = 0, lworld = w1\<rparr>"]
    by (auto simp: assms(2))
  then have heads:
    "list_all2 (\<lambda>a l. prefix (''Account: `'' @ acc_email a @ ''`\<newline>'') l) accs (results st)"
    by (simp add: account_head_def)
  have R: "R = build_report now (length accs) (successCount st) (results st)"
    using le
    by (simp add: assms(3) build_report_def report_summary_def report_header_def
        report_separator_def show_failures)
  show ?thesis
    using main_after_loop(2) [OF assms(1) assms(2) R, of net]
      main_after_loop(3) [OF assms(1) assms(2) R, of net] le heads
    by blast
qed

theorem report_in_account_order_witness:
  "Log INFO
     (''--- report preview ---\<newline>*Koyeb account status report*\<newline>=====================\<newline>Date: 2026-01-01 08:00:00\<newline>Total: 2 accounts\<newline>Succeeded: 1 | Failed: 1\<newline>---------------------------\<newline>''
        @ ''Account: `a@x.com`\<newline>Status: [ok] active and email validated\<newline>''
        @ ''Account: `b@x.com`\<newline>Status: [x] verification failed\<newline>  verification failed: the PAT is invalid or has expired.\<newline>'')
     \<in> set (trace (snd (main one_good_one_denied two_accounts ''2026-01-01 08:00:00'' world0)))
   \<and> Log INFO
     (''--- report preview ---\<newline>*Koyeb account status report*\<newline>=====================\<newline>Date: 2026-11-03 21:30:05\<newline>Total: 2 accounts\<newline>Succeeded: 1 | Failed: 1\<newline>---------------------------\<newline>''
        @ ''Account: `a@x.com`\<newline>Status: [ok] active and email validated\<newline>''
        @ ''Account: `b@x.com`\<newline>Status: [x] verification failed\<newline>  verification failed: the PAT is invalid or has expired.\<newline>'')
     \<in> set (trace (snd (main one_good_one_denied two_accounts ''2026-11-03 21:30:05'' world0)))"
proof -
  have n: "show_nat 2 = ''2''" "show_nat (Suc 0) = ''1''" by code_simp+
  have len: "length [account_a, account_b] = 2" by simp
  have g: "Log INFO (''--- report preview ---\<newline>''
            @ (''*Koyeb account status report*\<newline>=====================\<newline>Date: ''
            @ now @ ''\<newline>''
            @ ''Total: '' @ show_nat (length [account_a, account_b])
            @ '' accounts\<newline>Succeeded: ''
            @ show_nat (successCount
                (verify_accounts (verifyKoyebAccountStatus one_good_one_denied)
                   (length [account_a, account_b]) 0 [account_a, account_b]
                   \<lparr>results = [], successCount = 0, lworld = world0\<rparr>))
            @ '' | Failed: ''
            @ show_nat (length [account_a, account_b] - successCount
                (verify_accounts (verifyKoyebAccountStatus one_good_one_denied)
                   (length [account_a, account_b]) 0 [account_a, account_b]
                   \<lparr>results = [], successCount = 0, lworld = world0\<rparr>))
            @ ''\<newline>---------------------------\<newline>''
            @ concat (results
                (verify_accounts (verifyKoyebAccountStatus one_good_one_denied)
                   (length [account_a, account_b]) 0 [account_a, account_b]
                   \<lparr>results = [], successCount = 0, lworld = world0\<rparr>))))
           \<in> set (trace (snd (main_with (verifyKoyebAccountStatus one_good_one_denied)
                 one_good_one_denied two_accounts now world0)))" for now
    using report_in_account_order [where V = "verifyKoyebAccountStatus one_good_one_denied"
        and now = now and net = one_good_one_denied,
        OF load_two_accounts refl refl]
    by blast
  note r = g [unfolded loop_example_successes loop_example_results]
  show ?thesis
    using r [unfolded len, of "''2026-01-01 08:00:00''"]
      r [unfolded len, of "''2026-11-03 21:30:05''"]
    by (simp add: main_def n)
qed

text \<open>
  C7. Sending the message never throws. With the bot token or the chat id unset or empty,
  it returns null after one warning and makes no request. When the request is rejected
  (a timeout is one such rejection) or answered with a status outside 2xx, it logs the
  error and returns null. The exit status of the run depends on the account input and on
  the answers to the profile requests only: not on the Telegram settings, and not on the
  answers to the Telegram request.
\<close>

theorem notification_never_fatal:
  "(\<exists>v. fst (sendTgMessage net e text w) = Inr v)
   \<and> (env_value (TG_BOT_TOKEN e) = [] \<or> env_value (TG_CHAT_ID e) = [] \<longrightarrow>
        fst (sendTgMessage net e text w) = Inr JNull
        \<and> (\<exists>m. trace (snd (sendTgMessage net e text w)) = trace w @ [Log WARN m])
        \<and> fetches (snd (sendTgMessage net e text w)) = fetches w)
   \<and> (env_value (TG_BOT_TOKEN e) \<noteq> [] \<and> env_value (TG_CHAT_ID e) \<noteq> []
        \<and> (\<forall>r. net (fetches w)
                  (tg_request (env_value (TG_BOT_TOKEN e)) (env_value (TG_CHAT_ID e)) text)
                = Inr r \<longrightarrow> \<not> ok r) \<longrightarrow>
        fst (sendTgMessage net e text w) = Inr JNull
        \<and> (\<exists>evs. trace (snd (sendTgMessage net e text w)) =
                    trace w
                      @ Fetch (tg_request (env_value (TG_BOT_TOKEN e))
                                 (env_value (TG_CHAT_ID e)) text) # evs
                  \<and> evs \<noteq> [] \<and> list_all is_error_log evs))
   \<and> ((\<forall>n p. net' n (profile_request p) = net n (profile_request p))
        \<and> KOYEB_LOGIN e' = KOYEB_LOGIN e \<longrightarrow>
        fst (main net' e' now' w) = fst (main net e now w))"
proof (intro conjI impI)
  show "\<exists>v. fst (sendTgMessage net e text w) = Inr v"
    by (rule send_total)
next
  assume u: "env_value (TG_BOT_TOKEN e) = [] \<or> env_value (TG_CHAT_ID e) = []"
  then show "fst (sendTgMessage net e text w) = Inr JNull"
    by (simp add: send_cases)
  from u show "\<exists>m. trace (snd (sendTgMessage net e text w)) = trace w @ [Log WARN m]"
    by (simp add: send_cases logger_warn_def emit_def)
  from u show "fetches (snd (sendTgMessage net e text w)) = fetches w"
    by (simp add: send_cases logger_warn_def emit_def)
next
  assume a: "env_value (TG_BOT_TOKEN e) \<noteq> [] \<and> env_value (TG_CHAT_ID e) \<noteq> []
        \<and> (\<forall>r. net (fetches w)
                  (tg_request (env_value (TG_BOT_TOKEN e)) (env_value (TG_CHAT_ID e)) text)
                = Inr r \<longrightarrow> \<not> ok r)"
  then show "fst (sendTgMessage net e text w) = Inr JNull"
    by (auto simp: send_cases Let_def fetchWithTimeout_def tg_catch_def split: sum.splits)
  from a show "\<exists>evs. trace (snd (sendTgMessage net e text w)) =
                    trace w
                      @ Fetch (tg_request (env_value (TG_BOT_TOKEN e))
                                 (env_value (TG_CHAT_ID e)) text) # evs
                  \<and> evs \<noteq> [] \<and> list_all is_error_log evs"
    by (auto simp: send_cases Let_def fetchWithTimeout_def tg_catch_def logger_error_def
        emit_def is_error_log_def split: sum.splits)
next
  assume a: "(\<forall>n p. net' n (profile_request p) = net n (profile_request p))
        \<and> KOYEB_LOGIN e' = KOYEB_LOGIN e"
  then have v: "verifyKoyebAccountStatus net' = verifyKoyebAccountStatus net"
    using verify_agree [of net' net] by simp
  have l: "validateAndLoadAccounts e' w = validateAndLoadAccounts e w"
    using a by (simp add: validateAndLoadAccounts_def)
  show "fst (main net' e' now' w) = fst (main net e now w)"
  proof (cases "fst (validateAndLoadAccounts e w)")
    case (Inl error)
    then show ?thesis
      unfolding main_def using l main_exit_failed by metis
  next
    case (Inr accs)
    then have c: "validateAndLoadAccounts e w = (Inr accs, snd (validateAndLoadAccounts e w))"
      by (metis prod.collapse)
    have c': "validateAndLoadAccounts e' w = (Inr accs, snd (validateAndLoadAccounts e w))"
      using c l by simp
    show ?thesis
      unfolding main_def v
      using main_exit_loaded [OF c, of "verifyKoyebAccountStatus net" net now]
        main_exit_loaded [OF c', of "verifyKoyebAccountStatus net" net' now']
      by simp
  qed
qed

theorem notification_never_fatal_witness:
  "fst (sendTgMessage all_denied two_accounts ''hello'' world0) = Inr JNull
   \<and> fst (sendTgMessage all_aborted with_telegram ''hello'' world0) = Inr JNull
   \<and> fst (main all_denied with_telegram ''2026-01-01 08:00:00'' world0)
       = fst (main all_denied two_accounts ''2026-01-01 08:00:00'' world0)"
proof (intro conjI)
  have "env_value (TG_BOT_TOKEN two_accounts) = []"
    by (simp add: two_accounts_def env_value_def)
  then show "fst (sendTgMessage all_denied two_accounts ''hello'' world0) = Inr JNull"
    using notification_never_fatal [of all_denied two_accounts "''hello''" world0] by simp
next
  have "env_value (TG_BOT_TOKEN with_telegram) \<noteq> [] \<and> env_value (TG_CHAT_ID with_telegram) \<noteq> []"
    by (simp add: with_telegram_def env_value_def)
  moreover have "\<forall>r. all_aborted (fetches world0)
      (tg_request (env_value (TG_BOT_TOKEN with_telegram)) (env_value (TG_CHAT_ID with_telegram))
         ''hello'') = Inr r \<longrightarrow> \<not> ok r"
    by (simp add: all_aborted_def)
  ultimately show "fst (sendTgMessage all_aborted with_telegram ''hello'' world0) = Inr JNull"
    using notification_never_fatal [of all_aborted with_telegram "''hello''" world0] by blast
next
  have "KOYEB_LOGIN with_telegram = KOYEB_LOGIN two_accounts"
    by (simp add: with_telegram_def)
  then show "fst (main all_denied with_telegram ''2026-01-01 08:00:00'' world0)
       = fst (main all_denied two_accounts ''2026-01-01 08:00:00'' world0)"
    using notification_never_fatal [where net' = all_denied and net = all_denied
        and e' = with_telegram and e = two_accounts and w = world0
        and now' = "''2026-01-01 08:00:00''" and now = "''2026-01-01 08:00:00''"]
    by simp
qed

text \<open>
  C8. In a run, every profile request comes right after a delay of 10000 ms of its own,
  the first one too. For an account that reaches the check, the loop logs a line, waits
  10000 ms and then makes the profile request of that account, with nothing in between.
\<close>

theorem delay_before_every_check:
  "throttled (trace (snd (main net e now world0)))
   \<and> (complete a \<longrightarrow>
        (\<exists>m. trace (lworld (process_account (verifyKoyebAccountStatus net) tot i a st)) =
               trace (lworld st)
                 @ [Log INFO m, Sleep 10000, Fetch (profile_request (acc_pat a))]))"
proof (intro conjI impI)
  have "grows world0 (snd (main net e now world0))" by (rule main_grows)
  then show "throttled (trace (snd (main net e now world0)))"
    by (auto simp: grows_def world0_def)
next
  assume "complete a"
  then show "\<exists>m. trace (lworld (process_account (verifyKoyebAccountStatus net) tot i a st)) =
               trace (lworld st)
                 @ [Log INFO m, Sleep 10000, Fetch (profile_request (acc_pat a))]"
    by (rule process_check_trace)
qed

theorem delay_before_every_check_witness:
  "throttled (trace (snd (main one_good_one_denied two_accounts ''2026-01-01 08:00:00'' world0)))
   \<and> trace (lworld (verify_accounts (verifyKoyebAccountStatus one_good_one_denied)
        (length [account_a, account_b]) 0 [account_a, account_b]
        \<lparr>results = [], successCount = 0, lworld = world0\<rparr>)) =
      [Log INFO ''processing account 1/2: a@x.com'', Sleep 10000, Fetch (profile_request ''tok1''),
       Log INFO ''processing account 2/2: b@x.com'', Sleep 10000, Fetch (profile_request ''tok2'')]"
proof
  show "throttled (trace (snd (main one_good_one_denied two_accounts ''2026-01-01 08:00:00'' world0)))"
    using delay_before_every_check
      [of one_good_one_denied two_accounts "''2026-01-01 08:00:00''" account_a]
    by blast
  show "trace (lworld (verify_accounts (verifyKoyebAccountStatus one_good_one_denied)
        (length [account_a, account_b]) 0 [account_a, account_b]
        \<lparr>results = [], successCount = 0, lworld = world0\<rparr>)) =
      [Log INFO ''processing account 1/2: a@x.com'', Sleep 10000, Fetch (profile_request ''tok1''),
       Log INFO ''processing account 2/2: b@x.com'', Sleep 10000, Fetch (profile_request ''tok2'')]"
    by (rule loop_example_trace)
qed

text \<open>
  C9. The check of an account always returns an outcome and never throws. A 2xx response
  whose body is not JSON gives the network-exception failure with the message of the
  parse error; a request that is aborted by the timeout gives the timeout failure.
\<close>

theorem verify_never_throws:
  "(\<exists>out. fst (verifyKoyebAccountStatus net email pat w) = Inr out)
   \<and> (email \<noteq> [] \<and> pat \<noteq> [] \<and> net (fetches w) (profile_request pat) = Inr r \<and> ok r
        \<and> rbody r = Stream (Inr t) (Inl m)
      \<longrightarrow> fst (verifyKoyebAccountStatus net email pat w) =
            Inr \<lparr>success = False, message = NetworkException m\<rparr>)
   \<and> (email \<noteq> [] \<and> pat \<noteq> [] \<and> net (fetches w) (profile_request pat) = Inl error
        \<and> err_name error = ''AbortError''
      \<longrightarrow> fst (verifyKoyebAccountStatus net email pat w) =
            Inr \<lparr>success = False, message = RequestTimeout\<rparr>)"
proof (intro conjI impI)
  show "\<exists>out. fst (verifyKoyebAccountStatus net email pat w) = Inr out"
    by (rule verify_total)
next
  assume a: "email \<noteq> [] \<and> pat \<noteq> [] \<and> net (fetches w) (profile_request pat) = Inr r \<and> ok r
        \<and> rbody r = Stream (Inr t) (Inl m)"
  then have "status r \<noteq> 401 \<and> status r \<noteq> 403" by (simp add: ok_not_auth)
  moreover have "check_profile email r = Inl (JsError ''SyntaxError'' m)"
    using a by (simp add: check_profile_def response_json_def)
  ultimately show "fst (verifyKoyebAccountStatus net email pat w) =
            Inr \<lparr>success = False, message = NetworkException m\<rparr>"
    using a verify_on_response [of email pat net w r] by simp
next
  assume "email \<noteq> [] \<and> pat \<noteq> [] \<and> net (fetches w) (profile_request pat) = Inl error
        \<and> err_name error = ''AbortError''"
  then show "fst (verifyKoyebAccountStatus net email pat w) =
            Inr \<lparr>success = False, message = RequestTimeout\<rparr>"
    by (simp add: verifyKoyebAccountStatus_def verify_request_def fetchWithTimeout_def)
qed

theorem verify_never_throws_witness:
  "fst (verifyKoyebAccountStatus all_aborted ''a@x.com'' ''tok1'' world0) =
     Inr \<lparr>success = False, message = RequestTimeout\<rparr>
   \<and> fst (verifyKoyebAccountStatus not_json ''a@x.com'' ''tok1'' world0) =
     Inr \<lparr>success = False,
          message = NetworkException ''Unexpected token < in JSON at position 0''\<rparr>"
proof
  have "all_aborted (fetches world0) (profile_request ''tok1'') = Inl abort_error"
    by (simp add: all_aborted_def)
  moreover have "err_name abort_error = ''AbortError''"
    by (simp add: abort_error_def)
  ultimately show "fst (verifyKoyebAccountStatus all_aborted ''a@x.com'' ''tok1'' world0) =
     Inr \<lparr>success = False, message = RequestTimeout\<rparr>"
    using verify_never_throws [of all_aborted "''a@x.com''" "''tok1''" world0 _ _ _ abort_error]
    by simp
next
  let ?r = "text_response 200 ''OK'' ''<html>maintenance</html>''
              ''Unexpected token < in JSON at position 0''"
  have "not_json (fetches world0) (profile_request ''tok1'') = Inr ?r"
    by (simp add: not_json_def answers_def world0_def)
  moreover have "ok ?r" by (simp add: ok_def text_response_def)
  moreover have "rbody ?r =
      Stream (Inr ''<html>maintenance</html>'') (Inl ''Unexpected token < in JSON at position 0'')"
    by (simp add: text_response_def)
  ultimately show "fst (verifyKoyebAccountStatus not_json ''a@x.com'' ''tok1'' world0) =
     Inr \<lparr>success = False,
          message = NetworkException ''Unexpected token < in JSON at position 0''\<rparr>"
    using verify_never_throws [of not_json "''a@x.com''" "''tok1''" world0 ?r
        "''<html>maintenance</html>''" "''Unexpected token < in JSON at position 0''"]
    by simp
qed

text \<open>
  C10. No outcome of the check carries the unknown-account message: the last branch of the
  chain of lines 213 to 227 is never taken, and the chain is equal to the chain of its
  first three branches.
\<close>

theorem unknown_account_unreachable:
  "(\<forall>out u. fst (verifyKoyebAccountStatus net email pat w) = Inr out
       \<longrightarrow> message out \<noteq> UnknownAccount u)
   \<and> account_status userInfo flags emailValidated =
       (case flags_includes flags ''ACTIVE'' of
          Inl e \<Rightarrow> Inl e
        | Inr isActive \<Rightarrow>
            if isActive \<and> truthy emailValidated then
              Inr \<lparr>success = True, message = ActiveValidated\<rparr>
            else if \<not> isActive then
              (case flags_join flags '', '' of
                 Inl e \<Rightarrow> Inl e
               | Inr joined \<Rightarrow> Inr \<lparr>success = False, message = Inactive joined\<rparr>)
            else Inr \<lparr>success = False, message = EmailNotValidated\<rparr>)"
  using verify_known account_status_three_branches by blast

theorem unknown_account_unreachable_witness:
  "account_status (JObj []) (JArr [JStr ''ACTIVE'']) (JBool False) =
     Inr \<lparr>success = False, message = EmailNotValidated\<rparr>
   \<and> account_status (JObj []) (JArr [JStr ''SUSPENDED'', JStr ''TRIAL'']) (JBool True) =
     Inr \<lparr>success = False, message = Inactive ''SUSPENDED, TRIAL''\<rparr>
   \<and> account_status (JObj []) (JArr [JStr ''ACTIVE'']) (JBool True) =
     Inr \<lparr>success = True, message = ActiveValidated\<rparr>"
  using unknown_account_unreachable
          [of all_denied "[]" "[]" world0 "JObj []" "JArr [JStr ''ACTIVE'']" "JBool False"]
        unknown_account_unreachable
          [of all_denied "[]" "[]" world0 "JObj []" "JArr [JStr ''SUSPENDED'', JStr ''TRIAL'']"
             "JBool True"]
        unknown_account_unreachable
          [of all_denied "[]" "[]" world0 "JObj []" "JArr [JStr ''ACTIVE'']" "JBool True"]
  by (simp add: flags_includes_def flags_join_def)

end
